theory Spec2Isabelle
  imports Main
begin

section \<open>YourDash backend: application registry and panel icon cache\<close>

text \<open>
  A shallow embedding of \<^verbatim>\<open>src/src/applications.ts\<close>, \<^verbatim>\<open>src/src/filesystem.ts\<close>,
  the application loop of \<^verbatim>\<open>src/src/main.ts\<close> and the panel routes of the request
  manager (\<^verbatim>\<open>src/unnamed/part_000\<close>). Asynchronous functions are run sequentially
  (every call is awaited); a thrown JavaScript value is the left summand of a sum; the
  process-wide \<^verbatim>\<open>instance\<close> singleton, the filesystem and the database are one
  explicit state record that every operation takes and returns.
\<close>

subsection \<open>Thrown values\<close>

text \<open>
  JavaScript can throw any value. The registry's \<^verbatim>\<open>catch\<close> block calls
  \<^verbatim>\<open>(e as Error).toString()\<close> on what it caught, which is itself a property access:
  on \<^verbatim>\<open>null\<close> and \<^verbatim>\<open>undefined\<close> it raises a TypeError.
\<close>

datatype thrown = ErrorObject string | ThrownNull | ThrownUndefined

fun thrown_toString :: "thrown \<Rightarrow> thrown + string" where
  "thrown_toString (ErrorObject msg) = Inr msg"
| "thrown_toString ThrownNull =
     Inl (ErrorObject ''TypeError: null is not an object'')"
| "thrown_toString ThrownUndefined =
     Inl (ErrorObject ''TypeError: undefined is not an object'')"

subsection \<open>POSIX paths (\<^verbatim>\<open>path.posix\<close> of the runtime)\<close>

text \<open>\<^verbatim>\<open>s.split("/")\<close>: the segments between separators, empty ones included.\<close>

fun split_sep :: "string \<Rightarrow> string list" where
  "split_sep [] = [[]]"
| "split_sep (c # cs) =
     (if c = CHR ''/'' then [] # split_sep cs
      else (case split_sep cs of [] \<Rightarrow> [[c]] | s # ss \<Rightarrow> (c # s) # ss))"

fun join_sep :: "string list \<Rightarrow> string" where
  "join_sep [] = []"
| "join_sep [s] = s"
| "join_sep (s # t # ss) = s @ ''/'' @ join_sep (t # ss)"

text \<open>
  One step of \<^verbatim>\<open>normalizeString\<close>: the stack holds the segments kept so far, the last
  one first. Empty segments and \<^verbatim>\<open>.\<close> are dropped; \<^verbatim>\<open>..\<close> removes the last kept
  segment, or is kept itself when there is none and the path may climb above its start.
\<close>

fun normalize_step :: "bool \<Rightarrow> string list \<Rightarrow> string \<Rightarrow> string list" where
  "normalize_step allowAboveRoot st seg =
     (if seg = [] \<or> seg = ''.'' then st
      else if seg = ''..'' then
        (case st of
           [] \<Rightarrow> if allowAboveRoot then [''..''] else []
         | t # ts \<Rightarrow> if t = ''..'' then (if allowAboveRoot then ''..'' # st else st) else ts)
      else seg # st)"

declare normalize_step.simps [simp del]

definition normalize_segments :: "bool \<Rightarrow> string \<Rightarrow> string list" where
  "normalize_segments allowAboveRoot p = rev (foldl (normalize_step allowAboveRoot) [] (split_sep p))"

definition normalizeString :: "string \<Rightarrow> bool \<Rightarrow> string" where
  "normalizeString p allowAboveRoot = join_sep (normalize_segments allowAboveRoot p)"

definition isAbsolute :: "string \<Rightarrow> bool" where
  "isAbsolute p = (case p of [] \<Rightarrow> False | c # _ \<Rightarrow> c = CHR ''/'')"

definition posix_normalize :: "string \<Rightarrow> string" where
  "posix_normalize p =
     (if p = [] then ''.''
      else
        (let absolute = isAbsolute p;
             trailingSeparator = (last p = CHR ''/'');
             q = normalizeString p (\<not> absolute)
         in if q = [] then (if absolute then ''/'' else if trailingSeparator then ''./'' else ''.'')
            else (let q' = (if trailingSeparator then q @ ''/'' else q)
                  in if absolute then ''/'' @ q' else q')))"

definition posix_join :: "string list \<Rightarrow> string" where
  "posix_join args =
     (let parts = filter (\<lambda>a. a \<noteq> []) args
      in if parts = [] then ''.'' else posix_normalize (join_sep parts))"

text \<open>
  \<^verbatim>\<open>path.resolve\<close>: arguments are taken from the right until one is absolute; the
  working directory is used when none is.
\<close>

fun resolve_loop :: "string list \<Rightarrow> string \<Rightarrow> string \<times> bool" where
  "resolve_loop [] acc = (acc, False)"
| "resolve_loop (p # ps) acc =
     (if p = [] then resolve_loop ps acc
      else (let acc' = p @ ''/'' @ acc
            in if isAbsolute p then (acc', True) else resolve_loop ps acc'))"

definition posix_resolve :: "string \<Rightarrow> string list \<Rightarrow> string" where
  "posix_resolve cwd args =
     (case resolve_loop (rev args @ [cwd]) [] of
        (resolvedPath, resolvedAbsolute) \<Rightarrow>
          (let q = normalizeString resolvedPath (\<not> resolvedAbsolute)
           in if resolvedAbsolute then ''/'' @ q
              else if q \<noteq> [] then q else ''.''))"

text \<open>A segment as \<^verbatim>\<open>normalizeString\<close> keeps it: not empty, without a separator.\<close>

definition clean_segment :: "string \<Rightarrow> bool" where
  "clean_segment s = (s \<noteq> [] \<and> CHR ''/'' \<notin> set s)"

text \<open>A segment that stays as it is: clean, and neither \<^verbatim>\<open>.\<close> nor \<^verbatim>\<open>..\<close>.\<close>

definition plain_segment :: "string \<Rightarrow> bool" where
  "plain_segment s = (s \<noteq> [] \<and> CHR ''/'' \<notin> set s \<and> s \<noteq> ''.'' \<and> s \<noteq> ''..'')"

text \<open>
  The segments of the absolute path that a single argument resolves to from an
  absolute working directory.
\<close>

definition resolved_segments :: "string \<Rightarrow> string \<Rightarrow> string list" where
  "resolved_segments workingDirectory p =
     normalize_segments False
       (if p = [] then workingDirectory
        else if isAbsolute p then p
        else workingDirectory @ ''/'' @ p)"

subsection \<open>Plugin descriptor and plugin instance (\<^verbatim>\<open>applications.ts\<close>)\<close>

type_synonym credit = "string \<times> string"

record IYourDashApplicationConfigV1 =
  config_id :: string
  displayName :: string
  description :: string
  version_minor :: int
  version_major :: int
  credits_authors :: "credit list option"
  credits_contributors :: "credit list option"
  credits_translators :: "credit list option"
  credits_other :: "credit list option"
  configVersion :: int
  frontend :: "string option"
  externalFrontend :: "string option"

text \<open>
  A lifecycle hook is plugin code: the base class returns \<^verbatim>\<open>this\<close>, a plugin may
  override it with a body that throws.
\<close>

datatype hook = HookReturns | HookThrows thrown

record YourDashApplication =
  app_id :: string
  internal_params :: IYourDashApplicationConfigV1
  internal_initializedPath :: string
  onLoad :: hook
  onAfterInstall :: hook
  onBeforeUninstall :: hook

definition YourDashApplication_new :: "IYourDashApplicationConfigV1 \<Rightarrow> YourDashApplication" where
  "YourDashApplication_new applicationParams =
     \<lparr> app_id = config_id applicationParams,
       internal_params = applicationParams,
       internal_initializedPath = ''NOT YET LOADED!!!!'',
       onLoad = HookReturns,
       onAfterInstall = HookReturns,
       onBeforeUninstall = HookReturns \<rparr>"

text \<open>
  The default export of a plugin's entry module: a subclass whose constructor either
  throws or passes its descriptor to the base constructor, and which may override hooks.
\<close>

record plugin_class =
  class_constructor :: "thrown + IYourDashApplicationConfigV1"
  class_onLoad :: hook
  class_onAfterInstall :: hook
  class_onBeforeUninstall :: hook

definition construct :: "plugin_class \<Rightarrow> thrown + YourDashApplication" where
  "construct cls =
     (case class_constructor cls of
        Inl e \<Rightarrow> Inl e
      | Inr applicationParams \<Rightarrow>
          Inr ((YourDashApplication_new applicationParams)
                 \<lparr> onLoad := class_onLoad cls,
                   onAfterInstall := class_onAfterInstall cls,
                   onBeforeUninstall := class_onBeforeUninstall cls \<rparr>))"

subsection \<open>The instance: registry, module loader, filesystem, database\<close>

type_synonym bytes = string

datatype event =
    EvAccess string
  | EvMkdir string
  | EvReadStream string
  | EvResize string nat nat string string
  | EvHook string string

record configuration_row =
  config_version :: int
  installed_applications :: "string list option"

record panel_configuration_row =
  username :: string
  pinned_applications :: "string list option"

record Instance =
  loadedApplications :: "YourDashApplication list"
  modules :: "string \<Rightarrow> thrown + plugin_class option"
  cwd :: string
  FS_ROOT :: string
  files :: "string \<rightharpoonup> bytes"
  dirs :: "string set"
  denied :: "string set"
  image_transform :: "bytes \<Rightarrow> nat \<Rightarrow> nat \<Rightarrow> string \<Rightarrow> bytes option"
  database_online :: bool
  configuration :: "configuration_row list"
  panel_configuration :: "panel_configuration_row list"
  log_lines :: "(string \<times> string list) list"
  trace :: "event list"

type_synonym 'a outcome = "(thrown + 'a) \<times> Instance"

definition log_info :: "string \<Rightarrow> string list \<Rightarrow> Instance \<Rightarrow> Instance" where
  "log_info scope messages w = w\<lparr>log_lines := log_lines w @ [(scope, messages)]\<rparr>"

definition record_event :: "event \<Rightarrow> Instance \<Rightarrow> Instance" where
  "record_event ev w = w\<lparr>trace := trace w @ [ev]\<rparr>"

subsection \<open>Filesystem (\<^verbatim>\<open>filesystem.ts\<close> and the \<^verbatim>\<open>fs\<close> calls of the routes)\<close>

text \<open>
  The operating system resolves a relative path against the working directory; files
  and directories are stored under their resolved, normalised absolute path. A path in
  \<open>denied\<close> cannot be reached (a permission error on the way to it).
\<close>

definition fs_key :: "Instance \<Rightarrow> string \<Rightarrow> string" where
  "fs_key w p = posix_resolve (cwd w) [p]"

definition path_exists :: "Instance \<Rightarrow> string \<Rightarrow> bool" where
  "path_exists w k = (k \<in> dom (files w) \<or> k \<in> dirs w)"

definition fs_access :: "Instance \<Rightarrow> string \<Rightarrow> unit outcome" where
  "fs_access w p =
     (let k = fs_key w p; w' = record_event (EvAccess k) w
      in if k \<in> denied w then (Inl (ErrorObject ''EACCES: permission denied''), w')
         else if path_exists w k then (Inr (), w')
         else (Inl (ErrorObject ''ENOENT: no such file or directory''), w'))"

definition doesPathExist :: "Instance \<Rightarrow> string \<Rightarrow> bool outcome" where
  "doesPathExist w p =
     (case fs_access w p of
        (Inr _, w') \<Rightarrow> (Inr True, w')
      | (Inl e, w') \<Rightarrow> (Inr False, w'))"

text \<open>
  Every directory on the way to an absolute path, the root first and the path itself
  last: what \<^verbatim>\<open>mkdir(p, {recursive: true})\<close> leaves behind.
\<close>

definition directory_chain :: "string \<Rightarrow> string list" where
  "directory_chain k =
     (let segs = normalize_segments False k
      in map (\<lambda>n. ''/'' @ join_sep (take n segs)) [0..<Suc (length segs)])"

definition mkdir_recursive :: "Instance \<Rightarrow> string \<Rightarrow> unit outcome" where
  "mkdir_recursive w p =
     (let k = fs_key w p; w' = record_event (EvMkdir k) w
      in if k \<in> denied w then (Inl (ErrorObject ''EACCES: permission denied''), w')
         else if k \<in> dom (files w) then (Inl (ErrorObject ''EEXIST: file already exists''), w')
         else if list_ex (\<lambda>d. d \<in> dom (files w)) (directory_chain k)
           then (Inl (ErrorObject ''ENOTDIR: not a directory''), w')
         else (Inr (), w'\<lparr>dirs := dirs w' \<union> set (directory_chain k)\<rparr>))"

text \<open>
  The routes read the cache root through \<^verbatim>\<open>commonPaths.GlobalCacheDirectory()\<close>;
  \<^verbatim>\<open>filesystem.ts\<close> declares the accessor as \<^verbatim>\<open>globalCacheDirectory\<close>, and its
  body is taken from there. \<open>FS_ROOT\<close> is what the constructor computes from the
  working directory.
\<close>

definition Filesystem_FS_ROOT :: "string \<Rightarrow> string" where
  "Filesystem_FS_ROOT workingDirectory =
     posix_resolve workingDirectory [posix_join [workingDirectory, ''./fs/'']]"

definition GlobalCacheDirectory :: "Instance \<Rightarrow> string" where
  "GlobalCacheDirectory w = FS_ROOT w @ ''/Cache/''"

subsection \<open>Replies, \<^verbatim>\<open>sendFile\<close> and the resize operation\<close>

text \<open>
  A handler either throws (the framework answers with an error response) or produces a
  reply. A streamed file carries the bytes read from the resolved path; no bytes when
  nothing can be read there.
\<close>

datatype reply =
    Status nat
  | Stream (content_type: string) (stream_path: string) (stream_body: "bytes option")

definition read_file :: "Instance \<Rightarrow> string \<Rightarrow> bytes option" where
  "read_file w k = (if k \<in> denied w then None else files w k)"

definition sendFile :: "Instance \<Rightarrow> string \<Rightarrow> string \<Rightarrow> reply outcome" where
  "sendFile w filePath mimeType =
     (let resolved = posix_resolve (cwd w) [filePath]; k = fs_key w resolved
      in (Inr (Stream mimeType resolved (read_file w k)), record_event (EvReadStream k) w))"

text \<open>
  Modelled from the spec: \<^verbatim>\<open>resizeImage\<close> of \<^verbatim>\<open>image.ts\<close> is imported by the routes
  but is not among the sources. The spec gives it as
  \<^verbatim>\<open>resize(sourcePath, width, height, destPath, format) -> success | RenditionError\<close>:
  it takes a source image path, target width and height, a destination path and an
  output format and performs the transform; an unreadable source surfaces a
  RenditionError. The transform itself (\<open>image_transform\<close>) is a parameter of the
  instance; it fails on bytes that are no image.
\<close>

definition resizeImage ::
  "Instance \<Rightarrow> string \<Rightarrow> nat \<Rightarrow> nat \<Rightarrow> string \<Rightarrow> string \<Rightarrow> unit outcome" where
  "resizeImage w sourcePath width height destPath format =
     (let s = fs_key w sourcePath; d = fs_key w destPath;
          w' = record_event (EvResize s width height d format) w
      in case read_file w s of
           None \<Rightarrow> (Inl (ErrorObject ''RenditionError: source unreadable''), w')
         | Some source \<Rightarrow>
             (case image_transform w source width height format of
                None \<Rightarrow> (Inl (ErrorObject ''RenditionError: resize failed''), w')
              | Some rendition \<Rightarrow>
                  if d \<in> denied w then (Inl (ErrorObject ''RenditionError: cannot write''), w')
                  else (Inr (), w'\<lparr>files := (files w')(d \<mapsto> rendition)\<rparr>)))"

subsection \<open>The registry (\<^verbatim>\<open>class Applications\<close>)\<close>

definition verifyApplication :: "Instance \<Rightarrow> string \<Rightarrow> Instance" where
  "verifyApplication w applicationPath = w"

definition run_hook :: "Instance \<Rightarrow> string \<Rightarrow> YourDashApplication \<Rightarrow> hook \<Rightarrow> unit outcome" where
  "run_hook w name application h =
     (let w' = record_event (EvHook name (app_id application)) w
      in case h of HookReturns \<Rightarrow> (Inr (), w') | HookThrows e \<Rightarrow> (Inl e, w'))"

text \<open>The body of the \<^verbatim>\<open>try\<close> block of \<^verbatim>\<open>loadApplication\<close>.\<close>

definition loadApplication_try :: "Instance \<Rightarrow> string \<Rightarrow> YourDashApplication outcome" where
  "loadApplication_try w applicationPath =
     (case modules w (''../../applications/'' @ posix_join [applicationPath, ''/backend/src/index.ts'']) of
        Inl e \<Rightarrow> (Inl e, w)
      | Inr None \<Rightarrow> (Inl (ErrorObject ''TypeError: applicationImport.default is not a constructor''), w)
      | Inr (Some cls) \<Rightarrow>
          (case construct cls of
             Inl e \<Rightarrow> (Inl e, w)
           | Inr constructed \<Rightarrow>
               (let application = constructed
                      \<lparr>internal_initializedPath := posix_join [''./src/applications/'' @ applicationPath]\<rparr>;
                    w1 = w\<lparr>loadedApplications := loadedApplications w @ [application]\<rparr>
                in case run_hook w1 ''onLoad'' application (onLoad application) of
                     (Inl e, w2) \<Rightarrow> (Inl e, w2)
                   | (Inr _, w2) \<Rightarrow> (Inr application, w2))))"

text \<open>
  \<^verbatim>\<open>loadApplication\<close>: \<open>Inr None\<close> is the returned \<^verbatim>\<open>null\<close>. In the \<^verbatim>\<open>catch\<close>
  block \<^verbatim>\<open>console.error(e)\<close> only prints; the argument \<^verbatim>\<open>(e as Error).toString()\<close>
  is evaluated before the logger is called, and what it throws leaves the function.
\<close>

definition loadApplication :: "Instance \<Rightarrow> string \<Rightarrow> YourDashApplication option outcome" where
  "loadApplication w applicationPath =
     (let w0 = verifyApplication w applicationPath;
          w1 = log_info ''application'' [''Loading application @ '' @ applicationPath @ ''.''] w0
      in case loadApplication_try w1 applicationPath of
           (Inr application, w2) \<Rightarrow> (Inr (Some application), w2)
         | (Inl e, w2) \<Rightarrow>
             (case thrown_toString e of
                Inl e' \<Rightarrow> (Inl e', w2)
              | Inr text \<Rightarrow>
                  (Inr None,
                   log_info ''application''
                     [''Failed to load application @ '' @ applicationPath @ ''.'', text] w2)))"

definition uninstallApplication :: "Instance \<Rightarrow> string \<Rightarrow> Instance" where
  "uninstallApplication w applicationId = w"

text \<open>
  The lookup every route performs:
  \<^verbatim>\<open>loadedApplications.find((a) => a.__internal_params.id === applicationId)\<close>.
\<close>

definition find_application :: "Instance \<Rightarrow> string \<Rightarrow> YourDashApplication option" where
  "find_application w applicationId =
     find (\<lambda>a. config_id (internal_params a) = applicationId) (loadedApplications w)"

subsection \<open>Database\<close>

definition database_query_configuration :: "Instance \<Rightarrow> thrown + configuration_row list" where
  "database_query_configuration w =
     (if \<not> database_online w then Inl (ErrorObject ''Error: database query failed'')
      else Inr (case configuration w of
                  [] \<Rightarrow> []
                | r # rs \<Rightarrow>
                    [foldl (\<lambda>best x. if config_version best < config_version x then x else best) r rs]))"

definition getInstalledApplications :: "Instance \<Rightarrow> thrown + string list" where
  "getInstalledApplications w =
     (case database_query_configuration w of
        Inl e \<Rightarrow> Inl e
      | Inr [] \<Rightarrow> Inl (ErrorObject ''TypeError: undefined is not an object'')
      | Inr (row # _) \<Rightarrow>
          Inr (case installed_applications row of None \<Rightarrow> [] | Some val \<Rightarrow> val))"

definition database_select_pinned :: "Instance \<Rightarrow> string \<Rightarrow> thrown + panel_configuration_row list" where
  "database_select_pinned w user =
     (if \<not> database_online w then Inl (ErrorObject ''Error: database query failed'')
      else Inr (filter (\<lambda>r. username r = user) (panel_configuration w)))"

definition database_update_pinned :: "Instance \<Rightarrow> string \<Rightarrow> string list \<Rightarrow> unit outcome" where
  "database_update_pinned w user newPins =
     (if \<not> database_online w then (Inl (ErrorObject ''Error: database query failed''), w)
      else (Inr (),
            w\<lparr>panel_configuration :=
                map (\<lambda>r. if username r = user then r\<lparr>pinned_applications := Some newPins\<rparr> else r)
                  (panel_configuration w)\<rparr>))"

text \<open>
  \<^verbatim>\<open>query.rows[0].pinned_applications\<close>: a TypeError when the user has no row, and the
  methods called on the value throw one when the column is NULL.
\<close>

definition first_pinned_applications :: "Instance \<Rightarrow> string \<Rightarrow> thrown + string list" where
  "first_pinned_applications w user =
     (case database_select_pinned w user of
        Inl e \<Rightarrow> Inl e
      | Inr [] \<Rightarrow> Inl (ErrorObject ''TypeError: undefined is not an object'')
      | Inr (row # _) \<Rightarrow>
          (case pinned_applications row of
             None \<Rightarrow> Inl (ErrorObject ''TypeError: null is not an object'')
           | Some pins \<Rightarrow> Inr pins))"

subsection \<open>Startup: the application loop of \<^verbatim>\<open>Instance.startup\<close>\<close>

fun loadApplications :: "Instance \<Rightarrow> string list \<Rightarrow> unit outcome" where
  "loadApplications w [] = (Inr (), w)"
| "loadApplications w (app # apps) =
     (case loadApplication w app of
        (Inl e, w') \<Rightarrow> (Inl e, w')
      | (Inr _, w') \<Rightarrow>
          loadApplications
            (log_info ''application'' [''Application '' @ app @ '' loaded successfully!''] w') apps)"

fun join_comma :: "string list \<Rightarrow> string" where
  "join_comma [] = []"
| "join_comma [s] = s"
| "join_comma (s # t # ss) = s @ '','' @ join_comma (t # ss)"

definition startup_applications :: "Instance \<Rightarrow> unit outcome" where
  "startup_applications w =
     (case getInstalledApplications w of
        Inl e \<Rightarrow> (Inl e, w)
      | Inr applications \<Rightarrow>
          (let w1 = log_info ''applications''
                      [''loading applications: '' @ [CHR 0x27] @ join_comma applications @ [CHR 0x27]] w
           in case loadApplications w1 applications of
                (Inl e, w2) \<Rightarrow> (Inl e, w2)
              | (Inr _, w2) \<Rightarrow>
                  (Inr (), log_info ''application'' [''All applications have loaded!''] w2)))"

subsection \<open>Panel icon routes\<close>

definition cacheDirectory :: "Instance \<Rightarrow> YourDashApplication \<Rightarrow> string" where
  "cacheDirectory w app =
     posix_join [GlobalCacheDirectory w, ''panel/applications'', config_id (internal_params app)]"

definition cachePath :: "Instance \<Rightarrow> YourDashApplication \<Rightarrow> string \<Rightarrow> string" where
  "cachePath w app fileName =
     posix_join [GlobalCacheDirectory w, ''panel/applications'', config_id (internal_params app), fileName]"

definition invalidIconPath :: "Instance \<Rightarrow> string" where
  "invalidIconPath w = posix_join [GlobalCacheDirectory w, ''panel'', ''invalidIcon.webp'']"

text \<open>
  The large-grid, small-grid and list routes are the same handler up to the name of the
  cache file (all three resize to 88 by 88).
\<close>

definition gridIconRoute :: "string \<Rightarrow> Instance \<Rightarrow> string \<Rightarrow> reply outcome" where
  "gridIconRoute fileName w applicationId =
     (case find_application w applicationId of
        None \<Rightarrow> (Inr (Status 404), w)
      | Some app \<Rightarrow>
          (case doesPathExist w (cachePath w app fileName) of
             (Inl e, w1) \<Rightarrow> (Inl e, w1)
           | (Inr True, w1) \<Rightarrow> sendFile w1 (cachePath w app fileName) ''image/webp''
           | (Inr False, w1) \<Rightarrow>
               (case mkdir_recursive w1 (cacheDirectory w app) of
                  (Inl e, w2) \<Rightarrow> (Inl e, w2)
                | (Inr _, w2) \<Rightarrow>
                    (case doesPathExist w2 (posix_join [internal_initializedPath app, ''./icon.avif'']) of
                       (Inl e, w3) \<Rightarrow> (Inl e, w3)
                     | (Inr False, w3) \<Rightarrow> sendFile w3 (invalidIconPath w) ''image/webp''
                     | (Inr True, w3) \<Rightarrow>
                         (case resizeImage w3 (posix_join [internal_initializedPath app, ''./icon.avif''])
                                 88 88 (cachePath w app fileName) ''webp'' of
                            (Inl e, w4) \<Rightarrow> (Inl e, w4)
                          | (Inr _, w4) \<Rightarrow> sendFile w4 (cachePath w app fileName) ''image/webp'')))))"

definition largeGridRoute :: "Instance \<Rightarrow> string \<Rightarrow> reply outcome" where
  "largeGridRoute = gridIconRoute ''largeGridIcon.webp''"

definition smallGridRoute :: "Instance \<Rightarrow> string \<Rightarrow> reply outcome" where
  "smallGridRoute = gridIconRoute ''smallGridIcon.webp''"

definition listRoute :: "Instance \<Rightarrow> string \<Rightarrow> reply outcome" where
  "listRoute = gridIconRoute ''listIcon.webp''"

definition quickShortcutIconRoute :: "Instance \<Rightarrow> string \<Rightarrow> reply outcome" where
  "quickShortcutIconRoute w applicationId =
     (case find_application w applicationId of
        None \<Rightarrow> (Inr (Status 404), w)
      | Some app \<Rightarrow>
          (case doesPathExist w (cachePath w app ''quickShortcut.webp'') of
             (Inl e, w1) \<Rightarrow> (Inl e, w1)
           | (Inr True, w1) \<Rightarrow> sendFile w1 (cachePath w app ''quickShortcut.webp'') ''image/webp''
           | (Inr False, w1) \<Rightarrow>
               (case mkdir_recursive w1 (cacheDirectory w app) of
                  (Inl e, w2) \<Rightarrow> (Inl e, w2)
                | (Inr _, w2) \<Rightarrow>
                    (case resizeImage w2 (posix_join [internal_initializedPath app, ''./assets/icon.png''])
                            88 88 (cachePath w app ''quickShortcut.webp'') ''webp'' of
                       (Inl e, w3) \<Rightarrow> (Inl e, w3)
                     | (Inr _, w3) \<Rightarrow>
                         sendFile w3 (cachePath w app ''quickShortcut.webp'') ''image/webp''))))"

text \<open>Counting the invocations of the resize operation recorded in the trace.\<close>

fun is_resize :: "event \<Rightarrow> bool" where
  "is_resize (EvResize source width height dest format) = True"
| "is_resize _ = False"

definition resize_count :: "Instance \<Rightarrow> nat" where
  "resize_count w = length (filter is_resize (trace w))"

datatype renditionKind = LargeGridIcon | SmallGridIcon | ListIcon | QuickShortcutIcon

fun fetch :: "renditionKind \<Rightarrow> Instance \<Rightarrow> string \<Rightarrow> reply outcome" where
  "fetch LargeGridIcon = largeGridRoute"
| "fetch SmallGridIcon = smallGridRoute"
| "fetch ListIcon = listRoute"
| "fetch QuickShortcutIcon = quickShortcutIconRoute"

fun cacheFileName :: "renditionKind \<Rightarrow> string" where
  "cacheFileName LargeGridIcon = ''largeGridIcon.webp''"
| "cacheFileName SmallGridIcon = ''smallGridIcon.webp''"
| "cacheFileName ListIcon = ''listIcon.webp''"
| "cacheFileName QuickShortcutIcon = ''quickShortcut.webp''"

fun sourceIconPath :: "renditionKind \<Rightarrow> YourDashApplication \<Rightarrow> string" where
  "sourceIconPath QuickShortcutIcon app = posix_join [internal_initializedPath app, ''./assets/icon.png'']"
| "sourceIconPath _ app = posix_join [internal_initializedPath app, ''./icon.avif'']"

fun sourceFileName :: "renditionKind \<Rightarrow> string" where
  "sourceFileName QuickShortcutIcon = ''icon.png''"
| "sourceFileName _ = ''icon.avif''"

subsection \<open>Quick-shortcut routes\<close>

record shortcut =
  shortcut_displayName :: string
  shortcut_id :: string
  shortcut_endpoint :: "string option"
  shortcut_url :: "string option"

definition shortcut_of :: "YourDashApplication \<Rightarrow> shortcut" where
  "shortcut_of app =
     (if frontend (internal_params app) \<noteq> None then
        \<lparr> shortcut_displayName = displayName (internal_params app),
          shortcut_id = config_id (internal_params app),
          shortcut_endpoint = Some (''/app/a/'' @ config_id (internal_params app)),
          shortcut_url = None \<rparr>
      else
        \<lparr> shortcut_displayName = displayName (internal_params app),
          shortcut_id = config_id (internal_params app),
          shortcut_endpoint = None,
          shortcut_url =
            Some (case externalFrontend (internal_params app) of
                    None \<Rightarrow> ''example.com''
                  | Some url \<Rightarrow> if url = [] then ''example.com'' else url) \<rparr>)"

definition quickShortcutsRoute :: "Instance \<Rightarrow> string \<Rightarrow> thrown + shortcut list" where
  "quickShortcutsRoute w user =
     (case first_pinned_applications w user of
        Inl e \<Rightarrow> Inl e
      | Inr pins \<Rightarrow>
          (let pinnedApplications =
                 map the (filter (\<lambda>a. a \<noteq> None) (map (\<lambda>a. find_application w a) pins))
           in Inr (map shortcut_of pinnedApplications)))"

text \<open>
  The \<^verbatim>\<open>try\<close> block of the create route; the reply is the \<^verbatim>\<open>success\<close> flag. The route
  replies nothing (\<open>None\<close>) when the application is not loaded.
\<close>

definition createQuickShortcut_try :: "Instance \<Rightarrow> string \<Rightarrow> string \<Rightarrow> bool outcome" where
  "createQuickShortcut_try w user applicationId =
     (case first_pinned_applications w user of
        Inl e \<Rightarrow> (Inl e, w)
      | Inr previousPins \<Rightarrow>
          if applicationId \<in> set previousPins then (Inr False, w)
          else (case database_update_pinned w user (previousPins @ [applicationId]) of
                  (Inl e, w') \<Rightarrow> (Inl e, w')
                | (Inr _, w') \<Rightarrow> (Inr True, w')))"

definition createQuickShortcutRoute :: "Instance \<Rightarrow> string \<Rightarrow> string \<Rightarrow> bool option \<times> Instance" where
  "createQuickShortcutRoute w user applicationId =
     (case find_application w applicationId of
        None \<Rightarrow> (None, w)
      | Some _ \<Rightarrow>
          (case createQuickShortcut_try w user applicationId of
             (Inr success, w') \<Rightarrow> (Some success, w')
           | (Inl error, w') \<Rightarrow> (Some False, w')))"

subsection \<open>Concrete instances\<close>

text \<open>
  A descriptor, an instance with nothing loaded whose working directory is
  \<^verbatim>\<open>/srv\<close>, and an instance with two loaded applications and one user's pinned list.
\<close>

definition example_config :: "string \<Rightarrow> IYourDashApplicationConfigV1" where
  "example_config i =
     \<lparr> config_id = i, displayName = i, description = [],
       version_minor = 0, version_major = 1,
       credits_authors = None, credits_contributors = None,
       credits_translators = None, credits_other = None,
       configVersion = 1, frontend = Some ''index.tsx'', externalFrontend = None \<rparr>"

definition example_instance :: Instance where
  "example_instance =
     \<lparr> loadedApplications = [],
       modules = (\<lambda>specifier. Inl (ErrorObject ''Error: Cannot find module'')),
       cwd = ''/srv'',
       FS_ROOT = ''/srv/fs'',
       files = Map.empty,
       dirs = {},
       denied = {},
       image_transform = (\<lambda>source width height format. Some (format @ source)),
       database_online = True,
       configuration = [],
       panel_configuration = [],
       log_lines = [],
       trace = [] \<rparr>"

definition pinned_instance :: Instance where
  "pinned_instance =
     example_instance
       \<lparr> loadedApplications :=
           [YourDashApplication_new (example_config ''uk-ewsgit-dash''),
            YourDashApplication_new (example_config ''uk-ewsgit-files'')],
         panel_configuration :=
           [\<lparr> username = ''admin'',
              pinned_applications = Some [''uk-ewsgit-files'', ''uk-ewsgit-store'', ''uk-ewsgit-dash''] \<rparr>] \<rparr>"

text \<open>
  An instance at startup: four entry modules, of which \<^verbatim>\<open>uk-ewsgit-files\<close> executes
  \<^verbatim>\<open>throw null\<close> when imported and \<^verbatim>\<open>uk-ewsgit-photos\<close> overrides \<^verbatim>\<open>onLoad\<close> with
  a body that throws an Error; three of them are installed.
\<close>

definition plugin :: "string \<Rightarrow> plugin_class" where
  "plugin i =
     \<lparr> class_constructor = Inr (example_config i),
       class_onLoad = HookReturns,
       class_onAfterInstall = HookReturns,
       class_onBeforeUninstall = HookReturns \<rparr>"

definition startup_instance :: Instance where
  "startup_instance =
     example_instance
       \<lparr> modules :=
           (\<lambda>specifier.
              if specifier = ''../../applications/uk-ewsgit-dash/backend/src/index.ts''
                then Inr (Some (plugin ''uk-ewsgit-dash''))
              else if specifier = ''../../applications/uk-ewsgit-files/backend/src/index.ts''
                then Inl ThrownNull
              else if specifier = ''../../applications/uk-ewsgit-photos/backend/src/index.ts''
                then Inr (Some ((plugin ''uk-ewsgit-photos'')
                                  \<lparr>class_onLoad := HookThrows (ErrorObject ''Error: no album'')\<rparr>))
              else if specifier = ''../../applications/uk-ewsgit-store/backend/src/index.ts''
                then Inr (Some (plugin ''uk-ewsgit-store''))
              else Inl (ErrorObject ''Error: Cannot find module'')),
         configuration :=
           [\<lparr> config_version = 1,
              installed_applications =
                Some [''uk-ewsgit-dash'', ''uk-ewsgit-files'', ''uk-ewsgit-store''] \<rparr>] \<rparr>"

text \<open>
  An instance with \<^verbatim>\<open>uk-ewsgit-dash\<close> loaded from \<^verbatim>\<open>src/applications/uk-ewsgit-dash\<close>,
  an empty cache and the global fallback image in place: first without any icon in the
  plugin's directory, then with its \<^verbatim>\<open>icon.avif\<close>.
\<close>

definition dash_application :: YourDashApplication where
  "dash_application =
     (YourDashApplication_new (example_config ''uk-ewsgit-dash''))
       \<lparr>internal_initializedPath := ''src/applications/uk-ewsgit-dash''\<rparr>"

definition icon_instance :: Instance where
  "icon_instance =
     example_instance
       \<lparr> loadedApplications :=
           [dash_application],
         files := [''/srv/fs/Cache/panel/invalidIcon.webp'' \<mapsto> ''fallback image''] \<rparr>"

definition cached_instance :: Instance where
  "cached_instance =
     icon_instance
       \<lparr> files := [''/srv/fs/Cache/panel/invalidIcon.webp'' \<mapsto> ''fallback image'',
                   ''/srv/src/applications/uk-ewsgit-dash/icon.avif'' \<mapsto> ''avif image''] \<rparr>"

text \<open>
  The same modules with \<^verbatim>\<open>uk-ewsgit-weather\<close> installed in the middle, whose entry
  module does not exist (the import fails with an Error).
\<close>

definition missing_module_instance :: Instance where
  "missing_module_instance =
     startup_instance
       \<lparr> configuration :=
           [\<lparr> config_version = 1,
              installed_applications =
                Some [''uk-ewsgit-dash'', ''uk-ewsgit-weather'', ''uk-ewsgit-store''] \<rparr>] \<rparr>"

section \<open>Properties\<close>

text \<open>
  C9. \<^verbatim>\<open>Filesystem.doesPathExist\<close> is total: on every path and in every state of the
  filesystem it returns a boolean, \<open>True\<close> exactly when the access check succeeds and
  \<open>False\<close> when the check fails with whatever error; no error of the check reaches the
  caller. Its only effect is the one of the access check itself.
\<close>

theorem doesPathExist_total:
  "fst (doesPathExist w p) = Inr (fst (fs_access w p) = Inr ())
   \<and> (\<forall>e. fst (doesPathExist w p) \<noteq> Inl e)
   \<and> snd (doesPathExist w p) = snd (fs_access w p)"
  by (cases "fs_access w p") (auto simp: doesPathExist_def split: sum.splits)


subsection \<open>Paths\<close>

lemma split_sep_not_Nil: "split_sep p \<noteq> []"
  by (induction p) (auto split: list.splits)

lemma split_sep_no_slash: "s \<in> set (split_sep p) \<Longrightarrow> CHR ''/'' \<notin> set s"
  by (induction p arbitrary: s) (auto split: list.splits if_splits)

lemma normalize_step_clean:
  "list_all clean_segment st \<Longrightarrow> CHR ''/'' \<notin> set seg
     \<Longrightarrow> list_all clean_segment (normalize_step allow st seg)"
  by (auto simp: normalize_step.simps clean_segment_def split: list.splits)

lemma foldl_normalize_step_clean:
  "list_all clean_segment st \<Longrightarrow> \<forall>s \<in> set segs. CHR ''/'' \<notin> set s
     \<Longrightarrow> list_all clean_segment (foldl (normalize_step allow) st segs)"
proof (induction segs arbitrary: st)
  case Nil
  then show ?case by simp
next
  case (Cons seg segs)
  have "list_all clean_segment (normalize_step allow st seg)"
    using Cons.prems by (intro normalize_step_clean) auto
  then show ?case using Cons by simp
qed

lemma normalize_segments_clean: "list_all clean_segment (normalize_segments allow p)"
  unfolding normalize_segments_def
  using foldl_normalize_step_clean [of "[]" "split_sep p" allow] split_sep_no_slash
  by (auto simp: list_all_iff)

lemma hd_not_member: "s \<noteq> [] \<Longrightarrow> c \<notin> set s \<Longrightarrow> hd s \<noteq> c"
  by (cases s) auto

lemma join_sep_clean_hd:
  "list_all clean_segment segs \<Longrightarrow> segs \<noteq> [] \<Longrightarrow>
     join_sep segs \<noteq> [] \<and> hd (join_sep segs) \<noteq> CHR ''/''"
  by (induction segs rule: join_sep.induct) (auto simp: clean_segment_def hd_not_member)

lemma join_sep_Nil_iff: "list_all clean_segment segs \<Longrightarrow> join_sep segs = [] \<longleftrightarrow> segs = []"
  using join_sep_clean_hd by (cases segs) auto

lemma normalizeString_relative: "\<not> isAbsolute (normalizeString p allow)"
proof (cases "normalize_segments allow p = []")
  case True
  then show ?thesis by (simp add: normalizeString_def isAbsolute_def)
next
  case False
  with join_sep_clean_hd [OF normalize_segments_clean, of allow p]
  show ?thesis by (auto simp: normalizeString_def isAbsolute_def split: list.splits)
qed

lemma posix_normalize_relative: "\<not> isAbsolute p \<Longrightarrow> \<not> isAbsolute (posix_normalize p)"
  using normalizeString_relative [of p True]
  by (auto simp: posix_normalize_def Let_def isAbsolute_def split: list.splits)

lemma initializedPath_relative:
  "\<not> isAbsolute (posix_join [''./src/applications/'' @ applicationPath])"
  by (rule notI) (use posix_normalize_relative [of "''./src/applications/'' @ applicationPath"] in
      \<open>simp add: posix_join_def isAbsolute_def\<close>)


lemma plain_clean: "plain_segment s \<Longrightarrow> clean_segment s"
  by (simp add: plain_segment_def clean_segment_def)

lemma split_sep_append: "split_sep (a @ CHR ''/'' # b) = split_sep a @ split_sep b"
proof (induction a)
  case Nil
  then show ?case by simp
next
  case (Cons c a)
  then show ?case
    using split_sep_not_Nil [of a] by (cases "split_sep a") auto
qed

lemma split_sep_single: "CHR ''/'' \<notin> set s \<Longrightarrow> split_sep s = [s]"
  by (induction s) auto

lemma split_sep_join_sep:
  "segs \<noteq> [] \<Longrightarrow> \<forall>s \<in> set segs. CHR ''/'' \<notin> set s \<Longrightarrow> split_sep (join_sep segs) = segs"
  by (induction segs rule: join_sep.induct) (auto simp: split_sep_append split_sep_single)

lemma join_sep_inject:
  assumes "list_all clean_segment xs" "list_all clean_segment ys" "join_sep xs = join_sep ys"
  shows "xs = ys"
proof (cases "xs = [] \<or> ys = []")
  case True
  then show ?thesis using assms join_sep_Nil_iff by (metis join_sep.simps(1))
next
  case False
  have "split_sep (join_sep xs) = xs"
    using False assms(1) by (intro split_sep_join_sep) (auto simp: list_all_iff clean_segment_def)
  moreover have "split_sep (join_sep ys) = ys"
    using False assms(2) by (intro split_sep_join_sep) (auto simp: list_all_iff clean_segment_def)
  ultimately show ?thesis using assms(3) by metis
qed

lemma normalize_step_plain: "plain_segment s \<Longrightarrow> normalize_step allow st s = s # st"
  by (simp add: normalize_step.simps plain_segment_def)

lemma foldl_normalize_step_plain:
  "list_all plain_segment segs \<Longrightarrow> foldl (normalize_step allow) st segs = rev segs @ st"
  by (induction segs arbitrary: st) (auto simp: normalize_step_plain)

lemma normalize_step_False_plain:
  "list_all plain_segment st \<Longrightarrow> CHR ''/'' \<notin> set seg
     \<Longrightarrow> list_all plain_segment (normalize_step False st seg)"
  by (auto simp: normalize_step.simps plain_segment_def split: list.splits)

lemma foldl_normalize_step_False_plain:
  "list_all plain_segment st \<Longrightarrow> \<forall>s \<in> set segs. CHR ''/'' \<notin> set s
     \<Longrightarrow> list_all plain_segment (foldl (normalize_step False) st segs)"
proof (induction segs arbitrary: st)
  case Nil
  then show ?case by simp
next
  case (Cons seg segs)
  have "list_all plain_segment (normalize_step False st seg)"
    using Cons.prems by (intro normalize_step_False_plain) auto
  then show ?case using Cons by simp
qed

lemma normalize_segments_False_plain: "list_all plain_segment (normalize_segments False p)"
  unfolding normalize_segments_def
  using foldl_normalize_step_False_plain [of "[]" "split_sep p"] split_sep_no_slash
  by (auto simp: list_all_iff)

text \<open>A trailing separator does not change the segments.\<close>

lemma normalize_segments_trailing:
  "normalize_segments allow (p @ ''/'') = normalize_segments allow p"
  by (simp add: normalize_segments_def split_sep_append normalize_step.simps)

lemma normalize_segments_snoc:
  "plain_segment name \<Longrightarrow>
     normalize_segments allow (p @ CHR ''/'' # name) = normalize_segments allow p @ [name]"
  by (simp add: normalize_segments_def split_sep_append split_sep_single normalize_step_plain
        plain_segment_def)

lemma normalize_segments_rendered:
  assumes "list_all plain_segment segs"
  shows "normalize_segments allow (CHR ''/'' # join_sep segs) = segs"
proof (cases "segs = []")
  case True
  then show ?thesis by (simp add: normalize_segments_def normalize_step.simps)
next
  case False
  have "split_sep (CHR ''/'' # join_sep segs) = [] # segs"
    using False assms split_sep_join_sep [of segs]
    by (auto simp: list_all_iff plain_segment_def)
  then show ?thesis
    using assms by (simp add: normalize_segments_def foldl_normalize_step_plain normalize_step.simps)
qed


lemma resolved_segments_plain: "list_all plain_segment (resolved_segments workingDirectory p)"
  by (simp add: resolved_segments_def normalize_segments_False_plain)

lemma posix_resolve_single:
  assumes "isAbsolute workingDirectory"
  shows "posix_resolve workingDirectory [p] = CHR ''/'' # join_sep (resolved_segments workingDirectory p)"
proof -
  have nonempty: "workingDirectory \<noteq> []"
    using assms by (auto simp: isAbsolute_def)
  have trailing:
    "normalize_segments False (workingDirectory @ ''/'') = normalize_segments False workingDirectory"
    "normalize_segments False (p @ ''/'') = normalize_segments False p"
    "normalize_segments False (workingDirectory @ CHR ''/'' # p @ ''/'')
       = normalize_segments False (workingDirectory @ CHR ''/'' # p)"
    using normalize_segments_trailing [of False workingDirectory]
      normalize_segments_trailing [of False p]
      normalize_segments_trailing [of False "workingDirectory @ CHR ''/'' # p"]
    by simp_all
  show ?thesis
    using assms nonempty
    by (simp add: posix_resolve_def resolved_segments_def normalizeString_def Let_def trailing)
qed

lemma posix_resolve_idempotent:
  assumes "isAbsolute workingDirectory"
  shows "posix_resolve workingDirectory [posix_resolve workingDirectory [p]]
           = posix_resolve workingDirectory [p]"
proof -
  let ?segs = "resolved_segments workingDirectory p"
  have "resolved_segments workingDirectory (CHR ''/'' # join_sep ?segs) = ?segs"
    using normalize_segments_rendered [OF resolved_segments_plain, of False workingDirectory p]
    by (simp add: resolved_segments_def isAbsolute_def)
  then show ?thesis
    by (simp add: posix_resolve_single [OF assms])
qed

lemma resolved_segments_snoc:
  assumes "plain_segment name" "pre \<noteq> []"
  shows "resolved_segments workingDirectory (pre @ CHR ''/'' # name)
           = resolved_segments workingDirectory pre @ [name]"
proof -
  have abs: "isAbsolute (pre @ CHR ''/'' # name) = isAbsolute pre"
    using assms(2) by (cases pre) (auto simp: isAbsolute_def)
  show ?thesis
  proof (cases "isAbsolute pre")
    case True
    then show ?thesis
      using assms abs by (simp add: resolved_segments_def normalize_segments_snoc)
  next
    case False
    have "normalize_segments False ((workingDirectory @ ''/'' @ pre) @ CHR ''/'' # name)
            = normalize_segments False (workingDirectory @ ''/'' @ pre) @ [name]"
      by (rule normalize_segments_snoc [OF assms(1)])
    then show ?thesis
      using assms abs False by (simp add: resolved_segments_def)
  qed
qed

lemma normalize_step_True_kept:
  "list_all (\<lambda>s. plain_segment s \<or> s = ''..'') st \<Longrightarrow> CHR ''/'' \<notin> set seg
     \<Longrightarrow> list_all (\<lambda>s. plain_segment s \<or> s = ''..'') (normalize_step True st seg)"
  by (auto simp: normalize_step.simps plain_segment_def split: list.splits)

lemma foldl_normalize_step_True_kept:
  "list_all (\<lambda>s. plain_segment s \<or> s = ''..'') st \<Longrightarrow> \<forall>s \<in> set segs. CHR ''/'' \<notin> set s
     \<Longrightarrow> list_all (\<lambda>s. plain_segment s \<or> s = ''..'') (foldl (normalize_step True) st segs)"
proof (induction segs arbitrary: st)
  case Nil
  then show ?case by simp
next
  case (Cons seg segs)
  have "list_all (\<lambda>s. plain_segment s \<or> s = ''..'') (normalize_step True st seg)"
    using Cons.prems by (intro normalize_step_True_kept) auto
  then show ?case using Cons by simp
qed

text \<open>
  Replaying, below the working directory, the segments that a relative path normalises
  to has the effect of replaying the path itself.
\<close>

lemma replay_normalized:
  assumes "list_all plain_segment st" "\<forall>s \<in> set segs. CHR ''/'' \<notin> set s"
  shows "foldl (normalize_step False) st (rev (foldl (normalize_step True) [] segs))
           = foldl (normalize_step False) st segs"
  using assms(2)
proof (induction segs rule: rev_induct)
  case Nil
  then show ?case by simp
next
  case (snoc x xs)
  define T where "T = foldl (normalize_step True) [] xs"
  define U where "U = foldl (normalize_step False) st xs"
  have IH: "foldl (normalize_step False) st (rev T) = U"
    using snoc by (simp add: T_def U_def)
  have keptT: "list_all (\<lambda>s. plain_segment s \<or> s = ''..'') T"
    unfolding T_def using snoc.prems by (intro foldl_normalize_step_True_kept) auto
  have goal: "foldl (normalize_step False) st (rev (normalize_step True T x)) = normalize_step False U x"
  proof (cases "x = [] \<or> x = ''.''")
    case True
    then show ?thesis using IH by (auto simp: normalize_step.simps)
  next
    case False
    note not_skipped = this
    show ?thesis
    proof (cases "x = ''..''")
      case True
      show ?thesis
      proof (cases T)
        case Nil
        then show ?thesis using IH True by (simp add: normalize_step.simps)
      next
        case (Cons t ts)
        show ?thesis
        proof (cases "t = ''..''")
          case True
          then show ?thesis using IH Cons \<open>x = ''..''\<close> by (simp add: normalize_step.simps)
        next
          case False
          then have "plain_segment t" using keptT Cons by simp
          then have "U = t # foldl (normalize_step False) st (rev ts)"
            using IH Cons by (simp add: normalize_step_plain)
          then show ?thesis using Cons False \<open>x = ''..''\<close> by (simp add: normalize_step.simps)
        qed
      qed
    next
      case False
      then have "normalize_step True T x = x # T" "normalize_step False U x = x # U"
        using not_skipped by (simp_all add: normalize_step.simps)
      then show ?thesis using IH by simp
    qed
  qed
  then show ?case by (simp add: T_def U_def)
qed


lemma foldl_normalize_step_skip_last:
  "foldl (normalize_step allow) st (segs @ [[]]) = foldl (normalize_step allow) st segs"
  by (simp add: normalize_step.simps)

lemma clean_no_slash: "list_all clean_segment segs \<Longrightarrow> \<forall>s \<in> set segs. CHR ''/'' \<notin> set s"
  by (simp add: list_all_iff clean_segment_def)

lemma normalized_stack_absolute:
  assumes "isAbsolute J"
  shows "foldl (normalize_step False) [] (split_sep (posix_normalize J))
           = foldl (normalize_step False) [] (split_sep J)"
proof -
  define T where "T = foldl (normalize_step False) [] (split_sep J)"
  have segs: "normalize_segments False J = rev T"
    by (simp add: normalize_segments_def T_def)
  have plain: "list_all plain_segment (rev T)"
    using normalize_segments_False_plain [of J] segs by simp
  then have clean: "list_all clean_segment (rev T)"
    by (simp add: list_all_iff plain_clean)
  have J: "J \<noteq> []" using assms by (auto simp: isAbsolute_def)
  show ?thesis
  proof (cases "T = []")
    case True
    then have "posix_normalize J = ''/''"
      using assms J segs by (simp add: posix_normalize_def normalizeString_def Let_def)
    then show ?thesis using True by (simp add: T_def [symmetric] normalize_step.simps)
  next
    case False
    then have q: "join_sep (rev T) \<noteq> []"
      using join_sep_Nil_iff [OF clean] by simp
    have split: "split_sep (join_sep (rev T)) = rev T"
      using False clean_no_slash [OF clean] by (intro split_sep_join_sep) auto
    have replay: "foldl (normalize_step False) [] (rev T) = T"
      using foldl_normalize_step_plain [OF plain, of False "[]"] by simp
    have "posix_normalize J = CHR ''/'' # join_sep (rev T)
          \<or> posix_normalize J = CHR ''/'' # join_sep (rev T) @ ''/''"
      using assms J segs q by (simp add: posix_normalize_def normalizeString_def Let_def)
    then show ?thesis
      using split replay
      by (auto simp: T_def [symmetric] split_sep_append normalize_step.simps
            foldl_normalize_step_skip_last)
  qed
qed

lemma normalized_stack_relative:
  assumes "\<not> isAbsolute J" "J \<noteq> []" "list_all plain_segment st"
  shows "foldl (normalize_step False) st (split_sep (posix_normalize J))
           = foldl (normalize_step False) st (split_sep J)"
proof -
  define T where "T = foldl (normalize_step True) [] (split_sep J)"
  have segs: "normalize_segments True J = rev T"
    by (simp add: normalize_segments_def T_def)
  have clean: "list_all clean_segment (rev T)"
    using normalize_segments_clean [of True J] segs by simp
  have replay: "foldl (normalize_step False) st (rev T) = foldl (normalize_step False) st (split_sep J)"
    unfolding T_def using assms(3) split_sep_no_slash
    by (intro replay_normalized) auto
  show ?thesis
  proof (cases "T = []")
    case True
    then have "posix_normalize J = ''./'' \<or> posix_normalize J = ''.''"
      using assms segs by (simp add: posix_normalize_def normalizeString_def Let_def)
    then show ?thesis
      using replay True by (auto simp: normalize_step.simps)
  next
    case False
    then have q: "join_sep (rev T) \<noteq> []"
      using join_sep_Nil_iff [OF clean] by simp
    have split: "split_sep (join_sep (rev T)) = rev T"
      using False clean_no_slash [OF clean] by (intro split_sep_join_sep) auto
    have "posix_normalize J = join_sep (rev T) \<or> posix_normalize J = join_sep (rev T) @ ''/''"
      using assms segs q by (simp add: posix_normalize_def normalizeString_def Let_def)
    then show ?thesis
      using split replay
      by (auto simp: split_sep_append normalize_step.simps)
  qed
qed

lemma posix_normalize_absolute:
  assumes "J \<noteq> []"
  shows "isAbsolute (posix_normalize J) = isAbsolute J"
proof (cases "isAbsolute J")
  case True
  have "isAbsolute (CHR ''/'' # x)" for x
    by (simp add: isAbsolute_def)
  then show ?thesis
    using True assms by (simp add: posix_normalize_def Let_def)
next
  case False
  then show ?thesis
    using posix_normalize_relative [of J] by simp
qed

lemma posix_normalize_not_Nil: "posix_normalize J \<noteq> []"
  by (auto simp: posix_normalize_def Let_def)

lemma resolved_segments_normalize:
  assumes "J \<noteq> []"
  shows "resolved_segments workingDirectory (posix_normalize J) = resolved_segments workingDirectory J"
proof (cases "isAbsolute J")
  case True
  then show ?thesis
    using assms normalized_stack_absolute [OF True]
    by (simp add: resolved_segments_def posix_normalize_absolute posix_normalize_not_Nil
          normalize_segments_def)
next
  case False
  have "list_all plain_segment (foldl (normalize_step False) [] (split_sep workingDirectory))"
    using split_sep_no_slash by (intro foldl_normalize_step_False_plain) auto
  from normalized_stack_relative [OF False assms this]
  show ?thesis
    using assms False
    by (simp add: resolved_segments_def posix_normalize_absolute posix_normalize_not_Nil
          normalize_segments_def split_sep_append)
qed

lemma join_sep_not_Nil: "parts \<noteq> [] \<Longrightarrow> \<forall>a \<in> set parts. a \<noteq> [] \<Longrightarrow> join_sep parts \<noteq> []"
  by (induction parts rule: join_sep.induct) auto

lemma join_sep_snoc: "parts \<noteq> [] \<Longrightarrow> join_sep (parts @ [name]) = join_sep parts @ CHR ''/'' # name"
  by (induction parts rule: join_sep.induct) auto

text \<open>Where the operating system finds a joined path, and a file directly below it.\<close>

lemma resolve_posix_join:
  assumes "isAbsolute workingDirectory" "filter (\<lambda>a. a \<noteq> []) args \<noteq> []"
  shows "posix_resolve workingDirectory [posix_join args]
           = CHR ''/'' # join_sep (resolved_segments workingDirectory
                                    (join_sep (filter (\<lambda>a. a \<noteq> []) args)))"
proof -
  have "join_sep (filter (\<lambda>a. a \<noteq> []) args) \<noteq> []"
    using assms(2) by (intro join_sep_not_Nil) auto
  then show ?thesis
    using assms
    by (simp add: posix_resolve_single posix_join_def Let_def resolved_segments_normalize)
qed

lemma resolve_posix_join_child:
  assumes "isAbsolute workingDirectory" "filter (\<lambda>a. a \<noteq> []) args \<noteq> []" "plain_segment name"
  shows "posix_resolve workingDirectory [posix_join (args @ [name])]
           = CHR ''/'' # join_sep (resolved_segments workingDirectory
                                    (join_sep (filter (\<lambda>a. a \<noteq> []) args)) @ [name])"
proof -
  have name: "name \<noteq> []" using assms(3) by (simp add: plain_segment_def)
  have J: "join_sep (filter (\<lambda>a. a \<noteq> []) args) \<noteq> []"
    using assms(2) by (intro join_sep_not_Nil) auto
  have "posix_resolve workingDirectory [posix_join (args @ [name])]
          = CHR ''/'' # join_sep (resolved_segments workingDirectory
                (join_sep (filter (\<lambda>a. a \<noteq> []) args) @ CHR ''/'' # name))"
    using resolve_posix_join [OF assms(1), of "args @ [name]"] name assms(2)
    by (simp add: join_sep_snoc)
  then show ?thesis
    by (simp add: resolved_segments_snoc [OF assms(3) J])
qed

subsection \<open>Registry lookup\<close>

lemma find_application_id:
  "find_application w a = Some app \<Longrightarrow> config_id (internal_params app) = a"
  by (auto simp: find_application_def find_Some_iff)

lemma pinned_instance_pins:
  "first_pinned_applications pinned_instance ''admin''
     = Inr [''uk-ewsgit-files'', ''uk-ewsgit-store'', ''uk-ewsgit-dash'']"
  by (simp add: first_pinned_applications_def database_select_pinned_def pinned_instance_def
        example_instance_def)

lemma pinned_instance_find:
  "find_application pinned_instance ''uk-ewsgit-files'' \<noteq> None"
  "find_application pinned_instance ''uk-ewsgit-dash'' \<noteq> None"
  "find_application pinned_instance ''uk-ewsgit-store'' = None"
  by (simp_all add: find_application_def pinned_instance_def example_instance_def
        YourDashApplication_new_def example_config_def)


text \<open>
  C5 (as the code has it). \<^verbatim>\<open>uninstallApplication\<close> is a stub that returns the
  registry: after it the live set, every lookup and the record of hook calls are what
  they were before. It removes nothing and calls no hook.
\<close>

theorem uninstall_is_stub:
  "uninstallApplication w applicationId = w
   \<and> find_application (uninstallApplication w applicationId) other = find_application w other
   \<and> trace (uninstallApplication w applicationId) = trace w"
  by (simp add: uninstallApplication_def)


text \<open>
  C5 as stated fails: with \<^verbatim>\<open>uk-ewsgit-dash\<close> loaded, the lookup after
  \<^verbatim>\<open>uninstallApplication("uk-ewsgit-dash")\<close> still finds it, and
  \<^verbatim>\<open>onBeforeUninstall\<close> was not called.
\<close>

theorem uninstall_counterexample:
  "find_application (uninstallApplication pinned_instance ''uk-ewsgit-dash'') ''uk-ewsgit-dash''
     = Some (YourDashApplication_new (example_config ''uk-ewsgit-dash''))
   \<and> filter (\<lambda>ev. ev = EvHook ''onBeforeUninstall'' ''uk-ewsgit-dash'')
        (trace (uninstallApplication pinned_instance ''uk-ewsgit-dash'')) = []"
  by (simp add: uninstallApplication_def find_application_def pinned_instance_def
        example_instance_def YourDashApplication_new_def example_config_def)


text \<open>
  C6. For a user's pinned list, the quick-shortcuts listing has one entry for each
  pinned identifier that resolves to a loaded application, in the order of the pinned
  list; identifiers that do not resolve are left out. The entry's id is the pinned
  identifier.
\<close>

theorem quickShortcuts_filter_unresolved:
  assumes "first_pinned_applications w user = Inr pins"
  shows "quickShortcutsRoute w user =
           Inr (map (\<lambda>a. shortcut_of (the (find_application w a)))
                  (filter (\<lambda>a. find_application w a \<noteq> None) pins))
         \<and> map shortcut_id (map (\<lambda>a. shortcut_of (the (find_application w a)))
                  (filter (\<lambda>a. find_application w a \<noteq> None) pins))
            = filter (\<lambda>a. find_application w a \<noteq> None) pins"
proof -
  have ids: "map shortcut_id (map (\<lambda>a. shortcut_of (the (find_application w a))) xs) = xs"
    if "\<forall>a \<in> set xs. find_application w a \<noteq> None" for xs
    using that
    by (induction xs) (auto simp: shortcut_of_def dest: find_application_id)
  have route: "quickShortcutsRoute w user =
           Inr (map (\<lambda>a. shortcut_of (the (find_application w a)))
                  (filter (\<lambda>a. find_application w a \<noteq> None) pins))"
    using assms by (simp add: quickShortcutsRoute_def filter_map comp_def)
  show ?thesis using route ids by simp
qed

theorem quickShortcuts_filter_unresolved_witness:
  "first_pinned_applications pinned_instance ''admin''
     = Inr [''uk-ewsgit-files'', ''uk-ewsgit-store'', ''uk-ewsgit-dash'']
   \<and> map shortcut_id (projr (quickShortcutsRoute pinned_instance ''admin''))
     = [''uk-ewsgit-files'', ''uk-ewsgit-dash'']"
  using quickShortcuts_filter_unresolved [OF pinned_instance_pins]
  by (simp add: pinned_instance_pins pinned_instance_find)


subsection \<open>Creating a quick shortcut\<close>

lemma first_pinned_after_update:
  assumes "first_pinned_applications w user = Inr pins"
  shows "first_pinned_applications (snd (database_update_pinned w user newPins)) user = Inr newPins"
proof -
  from assms obtain row rest where online: "database_online w"
    and rows: "filter (\<lambda>r. username r = user) (panel_configuration w) = row # rest"
    by (auto simp: first_pinned_applications_def database_select_pinned_def
          split: if_splits list.splits)
  have updated: "filter (\<lambda>r. username r = user)
          (map (\<lambda>r. if username r = user then r\<lparr>pinned_applications := Some newPins\<rparr> else r) xs)
        = map (\<lambda>r. r\<lparr>pinned_applications := Some newPins\<rparr>) (filter (\<lambda>r. username r = user) xs)"
    for xs by (induction xs) auto
  show ?thesis
    by (simp add: first_pinned_applications_def database_select_pinned_def
          database_update_pinned_def online updated rows)
qed


text \<open>
  C10. When the application is loaded and already in the user's pinned list, the create
  route answers \<^verbatim>\<open>{success: false}\<close> and the instance, stored pinned lists included,
  is unchanged. Whatever the identifier, a pinned list without duplicates stays without
  duplicates after the route.
\<close>

theorem createQuickShortcut_already_pinned:
  assumes "first_pinned_applications w user = Inr pins"
  shows "(find_application w applicationId \<noteq> None \<and> applicationId \<in> set pins
            \<longrightarrow> createQuickShortcutRoute w user applicationId = (Some False, w))
         \<and> (distinct pins \<longrightarrow>
              (\<exists>pins'. first_pinned_applications
                          (snd (createQuickShortcutRoute w user applicationId)) user = Inr pins'
                       \<and> distinct pins'))"
proof (intro conjI impI)
  assume "find_application w applicationId \<noteq> None \<and> applicationId \<in> set pins"
  with assms show "createQuickShortcutRoute w user applicationId = (Some False, w)"
    by (auto simp: createQuickShortcutRoute_def createQuickShortcut_try_def)
next
  assume d: "distinct pins"
  have online: "database_online w"
    using assms by (auto simp: first_pinned_applications_def database_select_pinned_def split: if_splits)
  show "\<exists>pins'. first_pinned_applications
                          (snd (createQuickShortcutRoute w user applicationId)) user = Inr pins'
                       \<and> distinct pins'"
  proof (cases "find_application w applicationId \<noteq> None \<and> applicationId \<notin> set pins")
    case True
    then have "snd (createQuickShortcutRoute w user applicationId)
                 = snd (database_update_pinned w user (pins @ [applicationId]))"
      using assms online
      by (auto simp: createQuickShortcutRoute_def createQuickShortcut_try_def
            database_update_pinned_def)
    with first_pinned_after_update [OF assms, of "pins @ [applicationId]"] d True
    show ?thesis by auto
  next
    case False
    then have "snd (createQuickShortcutRoute w user applicationId) = w"
      using assms
      by (auto simp: createQuickShortcutRoute_def createQuickShortcut_try_def split: option.splits)
    with assms d show ?thesis by auto
  qed
qed

theorem createQuickShortcut_already_pinned_witness:
  "first_pinned_applications pinned_instance ''admin''
     = Inr [''uk-ewsgit-files'', ''uk-ewsgit-store'', ''uk-ewsgit-dash'']
   \<and> find_application pinned_instance ''uk-ewsgit-dash'' \<noteq> None
   \<and> ''uk-ewsgit-dash'' \<in> set [''uk-ewsgit-files'', ''uk-ewsgit-store'', ''uk-ewsgit-dash'']
   \<and> distinct [''uk-ewsgit-files'', ''uk-ewsgit-store'', ''uk-ewsgit-dash'']
   \<and> createQuickShortcutRoute pinned_instance ''admin'' ''uk-ewsgit-dash''
       = (Some False, pinned_instance)"
  using createQuickShortcut_already_pinned [OF pinned_instance_pins, of "''uk-ewsgit-dash''"]
  by (simp add: pinned_instance_pins pinned_instance_find)



subsection \<open>Loading applications\<close>

lemma entry_module_paths:
  "posix_join [''uk-ewsgit-dash'', ''/backend/src/index.ts''] = ''uk-ewsgit-dash/backend/src/index.ts''"
  "posix_join [''uk-ewsgit-files'', ''/backend/src/index.ts''] = ''uk-ewsgit-files/backend/src/index.ts''"
  "posix_join [''uk-ewsgit-photos'', ''/backend/src/index.ts''] = ''uk-ewsgit-photos/backend/src/index.ts''"
  "posix_join [''uk-ewsgit-store'', ''/backend/src/index.ts''] = ''uk-ewsgit-store/backend/src/index.ts''"
  by code_simp+

lemma install_paths:
  "posix_join [''./src/applications/uk-ewsgit-dash''] = ''src/applications/uk-ewsgit-dash''"
  "posix_join [''./src/applications/uk-ewsgit-photos''] = ''src/applications/uk-ewsgit-photos''"
  "posix_join [''./src/applications/uk-ewsgit-store''] = ''src/applications/uk-ewsgit-store''"
  by code_simp+

lemmas startup_defs =
  loadApplication_def loadApplication_try_def verifyApplication_def log_info_def
  run_hook_def record_event_def construct_def YourDashApplication_new_def
  startup_instance_def example_instance_def plugin_def example_config_def
  entry_module_paths install_paths Let_def

lemma load_dash:
  "fst (loadApplication startup_instance ''uk-ewsgit-dash'')
     = Inr (Some ((YourDashApplication_new (example_config ''uk-ewsgit-dash''))
                    \<lparr>internal_initializedPath := ''src/applications/uk-ewsgit-dash''\<rparr>))"
  by (simp add: startup_defs)

lemma startup_installed:
  "getInstalledApplications startup_instance
     = Inr [''uk-ewsgit-dash'', ''uk-ewsgit-files'', ''uk-ewsgit-store'']"
  by (simp add: getInstalledApplications_def database_query_configuration_def
        startup_instance_def example_instance_def)

lemma loadApplication_catches_Error:
  assumes "loadApplication_try
             (log_info ''application'' [''Loading application @ '' @ applicationPath @ ''.'']
                (verifyApplication w applicationPath)) applicationPath
           = (Inl (ErrorObject message), w')"
  shows "fst (loadApplication w applicationPath) = Inr None"
  using assms by (simp add: loadApplication_def Let_def)

lemma loadApplication_try_path:
  assumes "loadApplication_try w applicationPath = (Inr application, w')"
  shows "\<exists>cls constructed.
           construct cls = Inr constructed
           \<and> application = constructed
               \<lparr>internal_initializedPath := posix_join [''./src/applications/'' @ applicationPath]\<rparr>
           \<and> loadedApplications w' = loadedApplications w @ [application]"
proof -
  define target where "target = posix_join [''./src/applications/'' @ applicationPath]"
  define specifier where
    "specifier = ''../../applications/'' @ posix_join [applicationPath, ''/backend/src/index.ts'']"
  from assms obtain cls constructed where
    "construct cls = Inr constructed"
    "onLoad (constructed\<lparr>internal_initializedPath := target\<rparr>) = HookReturns"
    "application = constructed\<lparr>internal_initializedPath := target\<rparr>"
    "w' = record_event (EvHook ''onLoad'' (app_id application))
            (w\<lparr>loadedApplications := loadedApplications w @ [application]\<rparr>)"
    unfolding loadApplication_try_def run_hook_def target_def [symmetric] specifier_def [symmetric]
    by (auto simp: Let_def split: sum.splits option.splits hook.splits)
  then show ?thesis
    unfolding target_def by (auto simp: record_event_def)
qed

lemma construct_sentinel:
  "construct cls = Inr constructed \<Longrightarrow> internal_initializedPath constructed = ''NOT YET LOADED!!!!''"
  by (auto simp: construct_def YourDashApplication_new_def split: sum.splits)


lemma loadApplication_throws_only_nullish:
  assumes "fst (loadApplication w applicationPath) = Inl e"
  shows "fst (loadApplication_try
                (log_info ''application'' [''Loading application @ '' @ applicationPath @ ''.'']
                   (verifyApplication w applicationPath)) applicationPath)
           \<in> {Inl ThrownNull, Inl ThrownUndefined}"
  using assms
  by (auto simp: loadApplication_def Let_def split: prod.splits sum.splits
        elim: thrown_toString.elims)

text \<open>
  A failure that is an Error object is isolated: with the entry module of
  \<^verbatim>\<open>uk-ewsgit-weather\<close> missing, the loop completes and the applications before and
  after it are loaded.
\<close>

lemma startup_isolates_missing_module:
  "fst (loadApplication missing_module_instance ''uk-ewsgit-weather'') = Inr None
   \<and> fst (startup_applications missing_module_instance) = Inr ()
   \<and> map app_id (loadedApplications (snd (startup_applications missing_module_instance)))
     = [''uk-ewsgit-dash'', ''uk-ewsgit-store'']"
proof -
  have weather: "posix_join [''uk-ewsgit-weather'', ''/backend/src/index.ts'']
                   = ''uk-ewsgit-weather/backend/src/index.ts''"
    by code_simp
  have installed: "getInstalledApplications missing_module_instance
                     = Inr [''uk-ewsgit-dash'', ''uk-ewsgit-weather'', ''uk-ewsgit-store'']"
    by (simp add: getInstalledApplications_def database_query_configuration_def
          missing_module_instance_def startup_instance_def example_instance_def)
  show ?thesis
    by (simp add: startup_applications_def installed)
       (simp add: startup_defs missing_module_instance_def weather)
qed

lemma constructor_root:
  "Filesystem_FS_ROOT (cwd example_instance) = FS_ROOT example_instance"
  by (simp add: example_instance_def) code_simp

text \<open>
  C2 at a failing input. The entry module of \<^verbatim>\<open>uk-ewsgit-files\<close> throws \<^verbatim>\<open>null\<close>
  during import: \<^verbatim>\<open>loadApplication\<close> does not return \<^verbatim>\<open>null\<close> but throws the
  TypeError of \<^verbatim>\<open>(e as Error).toString()\<close>, the startup loop ends with it, and
  \<^verbatim>\<open>uk-ewsgit-store\<close>, installed after it, is never loaded.
\<close>

theorem startup_aborts_on_thrown_null:
  "fst (loadApplication startup_instance ''uk-ewsgit-files'')
     = Inl (ErrorObject ''TypeError: null is not an object'')
   \<and> fst (startup_applications startup_instance)
     = Inl (ErrorObject ''TypeError: null is not an object'')
   \<and> map app_id (loadedApplications (snd (startup_applications startup_instance)))
     = [''uk-ewsgit-dash'']"
  by (simp add: startup_applications_def startup_installed)
     (simp add: startup_defs)


text \<open>
  C7 at a failing input. \<^verbatim>\<open>onLoad\<close> of \<^verbatim>\<open>uk-ewsgit-photos\<close> throws an Error:
  \<^verbatim>\<open>loadApplication\<close> catches it and returns \<^verbatim>\<open>null\<close>, but the application was pushed
  before the hook ran and is still in \<^verbatim>\<open>loadedApplications\<close>, where the lookup finds it.
\<close>

theorem load_onLoad_throws:
  "fst (loadApplication startup_instance ''uk-ewsgit-photos'') = Inr None
   \<and> map app_id (loadedApplications (snd (loadApplication startup_instance ''uk-ewsgit-photos'')))
       = [''uk-ewsgit-photos'']
   \<and> find_application (snd (loadApplication startup_instance ''uk-ewsgit-photos'')) ''uk-ewsgit-photos''
       \<noteq> None"
  by (simp add: startup_defs find_application_def)


text \<open>
  C8 (as the code has it). A constructed application holds the sentinel
  \<^verbatim>\<open>NOT YET LOADED!!!!\<close>; a successful \<^verbatim>\<open>loadApplication(applicationPath)\<close> returns the
  constructed application with the field assigned once, to
  \<^verbatim>\<open>path.posix.join("./src/applications/" + applicationPath)\<close>, and appends it to the
  live set. That path is never absolute: it is relative to the working directory.
\<close>

theorem initializedPath_set_on_load:
  "internal_initializedPath (YourDashApplication_new applicationParams) = ''NOT YET LOADED!!!!''
   \<and> (loadApplication w applicationPath = (Inr (Some application), w') \<longrightarrow>
        (\<exists>constructed.
            internal_initializedPath constructed = ''NOT YET LOADED!!!!''
            \<and> application = constructed
                \<lparr>internal_initializedPath := posix_join [''./src/applications/'' @ applicationPath]\<rparr>)
        \<and> internal_initializedPath application
            = posix_join [''./src/applications/'' @ applicationPath]
        \<and> \<not> isAbsolute (internal_initializedPath application)
        \<and> loadedApplications w' = loadedApplications w @ [application])"
proof (intro conjI impI)
  show "internal_initializedPath (YourDashApplication_new applicationParams) = ''NOT YET LOADED!!!!''"
    by (simp add: YourDashApplication_new_def)
next
  assume loaded: "loadApplication w applicationPath = (Inr (Some application), w')"
  let ?w1 = "log_info ''application'' [''Loading application @ '' @ applicationPath @ ''.'']
               (verifyApplication w applicationPath)"
  from loaded have tried: "loadApplication_try ?w1 applicationPath = (Inr application, w')"
    by (auto simp: loadApplication_def Let_def split: sum.splits prod.splits)
  from loadApplication_try_path [OF tried] obtain cls constructed where
    c: "construct cls = Inr constructed"
    and a: "application = constructed
               \<lparr>internal_initializedPath := posix_join [''./src/applications/'' @ applicationPath]\<rparr>"
    and l: "loadedApplications w' = loadedApplications ?w1 @ [application]"
    by blast
  show "\<exists>constructed.
            internal_initializedPath constructed = ''NOT YET LOADED!!!!''
            \<and> application = constructed
                \<lparr>internal_initializedPath := posix_join [''./src/applications/'' @ applicationPath]\<rparr>"
    using c a construct_sentinel by blast
  show p: "internal_initializedPath application
            = posix_join [''./src/applications/'' @ applicationPath]"
    using a by simp
  show "\<not> isAbsolute (internal_initializedPath application)"
    unfolding p by (rule initializedPath_relative)
  show "loadedApplications w' = loadedApplications w @ [application]"
    using l by (simp add: log_info_def verifyApplication_def)
qed

theorem initializedPath_set_on_load_witness:
  "loadApplication startup_instance ''uk-ewsgit-dash''
     = (Inr (Some ((YourDashApplication_new (example_config ''uk-ewsgit-dash''))
                    \<lparr>internal_initializedPath := ''src/applications/uk-ewsgit-dash''\<rparr>)),
        snd (loadApplication startup_instance ''uk-ewsgit-dash''))
   \<and> posix_join [''./src/applications/'' @ ''uk-ewsgit-dash''] = ''src/applications/uk-ewsgit-dash''
   \<and> \<not> isAbsolute ''src/applications/uk-ewsgit-dash''"
  using initializedPath_set_on_load
          [of "example_config ''uk-ewsgit-dash''" startup_instance "''uk-ewsgit-dash''"
              "(YourDashApplication_new (example_config ''uk-ewsgit-dash''))
                    \<lparr>internal_initializedPath := ''src/applications/uk-ewsgit-dash''\<rparr>"
              "snd (loadApplication startup_instance ''uk-ewsgit-dash'')"]
        load_dash
  by (simp add: prod_eq_iff install_paths)


text \<open>
  C8 as stated fails: loading \<^verbatim>\<open>uk-ewsgit-dash\<close> sets the field to
  \<^verbatim>\<open>src/applications/uk-ewsgit-dash\<close>, which is not an absolute path.
\<close>

theorem initializedPath_not_absolute_counterexample:
  "map_option internal_initializedPath
       (projr (fst (loadApplication startup_instance ''uk-ewsgit-dash'')))
     = Some ''src/applications/uk-ewsgit-dash''
   \<and> \<not> isAbsolute ''src/applications/uk-ewsgit-dash''"
  by (simp add: load_dash isAbsolute_def)



subsection \<open>Panel icon routes\<close>

lemmas fs_defs =
  doesPathExist_def fs_access_def fs_key_def path_exists_def mkdir_recursive_def
  sendFile_def read_file_def resizeImage_def record_event_def
  cachePath_def cacheDirectory_def invalidIconPath_def GlobalCacheDirectory_def Let_def

lemma icon_paths:
  "posix_join [''/srv/fs/Cache/'', ''panel/applications'', ''uk-ewsgit-dash'', ''largeGridIcon.webp'']
     = ''/srv/fs/Cache/panel/applications/uk-ewsgit-dash/largeGridIcon.webp''"
  "posix_join [''/srv/fs/Cache/'', ''panel/applications'', ''uk-ewsgit-dash'', ''quickShortcut.webp'']
     = ''/srv/fs/Cache/panel/applications/uk-ewsgit-dash/quickShortcut.webp''"
  "posix_join [''/srv/fs/Cache/'', ''panel/applications'', ''uk-ewsgit-dash'']
     = ''/srv/fs/Cache/panel/applications/uk-ewsgit-dash''"
  "posix_join [''/srv/fs/Cache/'', ''panel'', ''invalidIcon.webp'']
     = ''/srv/fs/Cache/panel/invalidIcon.webp''"
  "posix_join [''src/applications/uk-ewsgit-dash'', ''./icon.avif'']
     = ''src/applications/uk-ewsgit-dash/icon.avif''"
  "posix_join [''src/applications/uk-ewsgit-dash'', ''./assets/icon.png'']
     = ''src/applications/uk-ewsgit-dash/assets/icon.png''"
  "posix_resolve ''/srv'' [''/srv/fs/Cache/panel/applications/uk-ewsgit-dash/largeGridIcon.webp'']
     = ''/srv/fs/Cache/panel/applications/uk-ewsgit-dash/largeGridIcon.webp''"
  "posix_resolve ''/srv'' [''/srv/fs/Cache/panel/applications/uk-ewsgit-dash/quickShortcut.webp'']
     = ''/srv/fs/Cache/panel/applications/uk-ewsgit-dash/quickShortcut.webp''"
  "posix_resolve ''/srv'' [''/srv/fs/Cache/panel/applications/uk-ewsgit-dash'']
     = ''/srv/fs/Cache/panel/applications/uk-ewsgit-dash''"
  "posix_resolve ''/srv'' [''/srv/fs/Cache/panel/invalidIcon.webp'']
     = ''/srv/fs/Cache/panel/invalidIcon.webp''"
  "posix_resolve ''/srv'' [''src/applications/uk-ewsgit-dash/icon.avif'']
     = ''/srv/src/applications/uk-ewsgit-dash/icon.avif''"
  "posix_resolve ''/srv'' [''src/applications/uk-ewsgit-dash/assets/icon.png'']
     = ''/srv/src/applications/uk-ewsgit-dash/assets/icon.png''"
  "directory_chain ''/srv/fs/Cache/panel/applications/uk-ewsgit-dash''
     = [''/'', ''/srv'', ''/srv/fs'', ''/srv/fs/Cache'', ''/srv/fs/Cache/panel'',
        ''/srv/fs/Cache/panel/applications'', ''/srv/fs/Cache/panel/applications/uk-ewsgit-dash'']"
  by code_simp+

lemma small_grid_paths:
  "posix_join [''/srv/fs/Cache/'', ''panel/applications'', ''uk-ewsgit-dash'', ''smallGridIcon.webp'']
     = ''/srv/fs/Cache/panel/applications/uk-ewsgit-dash/smallGridIcon.webp''"
  "posix_resolve ''/srv'' [''/srv/fs/Cache/panel/applications/uk-ewsgit-dash/smallGridIcon.webp'']
     = ''/srv/fs/Cache/panel/applications/uk-ewsgit-dash/smallGridIcon.webp''"
  "posix_join [''/srv/fs/Cache/'', ''panel/applications'', ''uk-ewsgit-dash'', ''listIcon.webp'']
     = ''/srv/fs/Cache/panel/applications/uk-ewsgit-dash/listIcon.webp''"
  "posix_resolve ''/srv'' [''/srv/fs/Cache/panel/applications/uk-ewsgit-dash/listIcon.webp'']
     = ''/srv/fs/Cache/panel/applications/uk-ewsgit-dash/listIcon.webp''"
  by code_simp+

lemmas instance_defs =
  cached_instance_def icon_instance_def example_instance_def dash_application_def
  YourDashApplication_new_def example_config_def

lemma icon_instance_find:
  "find_application icon_instance ''uk-ewsgit-dash'' = Some dash_application"
  "find_application cached_instance ''uk-ewsgit-dash'' = Some dash_application"
  by (simp_all add: find_application_def instance_defs)

lemma icon_instance_mkdir:
  "fst (mkdir_recursive icon_instance (cacheDirectory icon_instance dash_application)) = Inr ()"
  "fst (mkdir_recursive cached_instance (cacheDirectory cached_instance dash_application)) = Inr ()"
  by (simp_all add: fs_defs instance_defs icon_paths)

lemma instance_cwd: "isAbsolute (cwd icon_instance)" "isAbsolute (cwd cached_instance)"
  by (simp_all add: instance_defs isAbsolute_def)


text \<open>
  Where the routes' paths lie. From an absolute working directory, the cache file is the
  entry named by the rendition directly below the cache directory; the source icon ends
  in its own file name; so the two are different files, and the cache file is none of
  the directories that \<^verbatim>\<open>mkdir\<close> creates.
\<close>

lemma fs_key_resolved:
  "isAbsolute (cwd w) \<Longrightarrow> fs_key w (posix_resolve (cwd w) [p]) = fs_key w p"
  by (simp add: fs_key_def posix_resolve_idempotent)

lemma plain_file_names:
  "plain_segment (cacheFileName kind)" "plain_segment (sourceFileName kind)"
  by (cases kind; simp add: plain_segment_def)+

lemma cache_key_form:
  assumes "isAbsolute (cwd w)" "plain_segment name"
  shows "\<exists>segs. list_all plain_segment segs
           \<and> fs_key w (cacheDirectory w app) = CHR ''/'' # join_sep segs
           \<and> fs_key w (cachePath w app name) = CHR ''/'' # join_sep (segs @ [name])"
proof -
  let ?args = "[GlobalCacheDirectory w, ''panel/applications'', config_id (internal_params app)]"
  have parts: "filter (\<lambda>a. a \<noteq> []) ?args \<noteq> []" by simp
  have "cachePath w app name = posix_join (?args @ [name])"
    by (simp add: cachePath_def)
  then show ?thesis
    using resolve_posix_join [OF assms(1) parts] resolve_posix_join_child [OF assms(1) parts assms(2)]
      resolved_segments_plain
    unfolding fs_key_def cacheDirectory_def by metis
qed

lemma source_key_form:
  assumes "isAbsolute (cwd w)"
  shows "\<exists>segs. list_all plain_segment segs
           \<and> fs_key w (sourceIconPath kind app) = CHR ''/'' # join_sep (segs @ [sourceFileName kind])"
proof -
  define ip where "ip = internal_initializedPath app"
  define rel where "rel = (if kind = QuickShortcutIcon then ''./assets'' else ''.'')"
  define pre where "pre = (if ip = [] then rel else ip @ CHR ''/'' # rel)"
  have pre: "pre \<noteq> []" by (auto simp: pre_def rel_def)
  have path: "sourceIconPath kind app = posix_join [ip, rel @ CHR ''/'' # sourceFileName kind]"
    by (cases kind) (simp_all add: ip_def rel_def)
  have parts: "filter (\<lambda>a. a \<noteq> []) [ip, rel @ CHR ''/'' # sourceFileName kind] \<noteq> []" by simp
  have joined: "join_sep (filter (\<lambda>a. a \<noteq> []) [ip, rel @ CHR ''/'' # sourceFileName kind])
                  = pre @ CHR ''/'' # sourceFileName kind"
    by (simp add: pre_def)
  have "fs_key w (sourceIconPath kind app)
          = CHR ''/'' # join_sep (resolved_segments (cwd w) pre @ [sourceFileName kind])"
    unfolding fs_key_def path resolve_posix_join [OF assms parts] joined
    by (simp add: resolved_segments_snoc [OF plain_file_names(2) pre])
  then show ?thesis using resolved_segments_plain by blast
qed

lemma plain_list_clean: "list_all plain_segment segs \<Longrightarrow> list_all clean_segment segs"
  by (simp add: list_all_iff plain_clean)

lemma cache_is_not_source:
  assumes "isAbsolute (cwd w)"
  shows "fs_key w (cachePath w app (cacheFileName kind)) \<noteq> fs_key w (sourceIconPath kind app)"
proof
  assume eq: "fs_key w (cachePath w app (cacheFileName kind)) = fs_key w (sourceIconPath kind app)"
  from cache_key_form [OF assms plain_file_names(1), of app kind] obtain cs where
    cs: "list_all plain_segment cs"
        "fs_key w (cachePath w app (cacheFileName kind)) = CHR ''/'' # join_sep (cs @ [cacheFileName kind])"
    by blast
  from source_key_form [OF assms, of kind app] obtain ss where
    ss: "list_all plain_segment ss"
        "fs_key w (sourceIconPath kind app) = CHR ''/'' # join_sep (ss @ [sourceFileName kind])"
    by blast
  have "cs @ [cacheFileName kind] = ss @ [sourceFileName kind]"
    using eq cs ss plain_file_names [of kind]
    by (intro join_sep_inject) (auto simp: plain_list_clean plain_clean)
  then have "cacheFileName kind = sourceFileName kind" by simp
  then show False by (cases kind) simp_all
qed

lemma cache_file_not_a_directory:
  assumes "isAbsolute (cwd w)" "plain_segment name"
  shows "fs_key w (cachePath w app name) \<notin> set (directory_chain (fs_key w (cacheDirectory w app)))"
proof
  assume mem: "fs_key w (cachePath w app name) \<in> set (directory_chain (fs_key w (cacheDirectory w app)))"
  from cache_key_form [OF assms, of app] obtain segs where
    segs: "list_all plain_segment segs"
      and d: "fs_key w (cacheDirectory w app) = CHR ''/'' # join_sep segs"
      and c: "fs_key w (cachePath w app name) = CHR ''/'' # join_sep (segs @ [name])"
    by blast
  have chain: "directory_chain (fs_key w (cacheDirectory w app))
                 = map (\<lambda>n. CHR ''/'' # join_sep (take n segs)) [0..<Suc (length segs)]"
    unfolding d directory_chain_def normalize_segments_rendered [OF segs] by (simp add: Let_def)
  from mem have "\<exists>n. CHR ''/'' # join_sep (segs @ [name]) = CHR ''/'' # join_sep (take n segs)"
    unfolding chain c set_map by blast
  then obtain n where "join_sep (segs @ [name]) = join_sep (take n segs)"
    by auto
  moreover have "list_all clean_segment (take n segs)"
    using segs by (auto simp: list_all_iff plain_clean dest: in_set_takeD)
  ultimately have "segs @ [name] = take n segs"
    using segs assms(2) by (intro join_sep_inject) (auto simp: plain_list_clean plain_clean)
  then have "length (segs @ [name]) = length (take n segs)" by simp
  then show False by simp
qed


lemma cache_directory_in_chain:
  assumes "isAbsolute (cwd w)"
  shows "fs_key w (cacheDirectory w app) \<in> set (directory_chain (fs_key w (cacheDirectory w app)))"
proof -
  from cache_key_form [OF assms plain_file_names(1), of app LargeGridIcon] obtain segs where
    segs: "list_all plain_segment segs"
      and d: "fs_key w (cacheDirectory w app) = CHR ''/'' # join_sep segs"
    by blast
  have "directory_chain (fs_key w (cacheDirectory w app))
          = map (\<lambda>n. CHR ''/'' # join_sep (take n segs)) [0..<Suc (length segs)]"
    unfolding d directory_chain_def normalize_segments_rendered [OF segs] by (simp add: Let_def)
  then show ?thesis unfolding d by simp
qed

lemma mkdir_recursive_ok:
  "fst (mkdir_recursive w p) = Inr () \<longleftrightarrow>
     fs_key w p \<notin> denied w \<and> fs_key w p \<notin> dom (files w)
     \<and> (\<forall>d \<in> set (directory_chain (fs_key w p)). d \<notin> dom (files w))"
  by (auto simp: mkdir_recursive_def Let_def list_ex_iff)

text \<open>A cache miss with a valid source icon: the rendition is generated and streamed.\<close>

lemma gridIconRoute_generates:
  assumes cwd: "isAbsolute (cwd w)"
    and loaded: "find_application w applicationId = Some app"
    and absent: "\<not> path_exists w (fs_key w (cachePath w app fileName))"
    and mkdir: "fst (mkdir_recursive w (cacheDirectory w app)) = Inr ()"
    and source: "read_file w (fs_key w (posix_join [internal_initializedPath app, ''./icon.avif''])) = Some source"
    and valid: "image_transform w source 88 88 ''webp'' = Some rendition"
    and reachable: "fs_key w (cachePath w app fileName) \<notin> denied w"
  shows "fst (gridIconRoute fileName w applicationId)
           = Inr (Stream ''image/webp'' (posix_resolve (cwd w) [cachePath w app fileName]) (Some rendition))"
    and "resize_count (snd (gridIconRoute fileName w applicationId)) = Suc (resize_count w)"
    and "files (snd (gridIconRoute fileName w applicationId))
           = (files w)(fs_key w (cachePath w app fileName) \<mapsto> rendition)"
proof -
  from source have s: "fs_key w (posix_join [internal_initializedPath app, ''./icon.avif'']) \<in> dom (files w)"
    "fs_key w (posix_join [internal_initializedPath app, ''./icon.avif'']) \<notin> denied w"
    by (auto simp: read_file_def split: if_splits)
  note facts = loaded absent mkdir s source valid reachable posix_resolve_idempotent [OF cwd]
  show "fst (gridIconRoute fileName w applicationId)
           = Inr (Stream ''image/webp'' (posix_resolve (cwd w) [cachePath w app fileName]) (Some rendition))"
    using facts by (auto simp: gridIconRoute_def fs_defs split: if_splits)
  show "resize_count (snd (gridIconRoute fileName w applicationId)) = Suc (resize_count w)"
    using facts by (auto simp: gridIconRoute_def fs_defs resize_count_def split: if_splits)
  show "files (snd (gridIconRoute fileName w applicationId))
           = (files w)(fs_key w (cachePath w app fileName) \<mapsto> rendition)"
    using facts by (auto simp: gridIconRoute_def fs_defs split: if_splits)
qed


lemma gridIconRoute_twice:
  assumes cwd: "isAbsolute (cwd w)"
    and loaded: "find_application w applicationId = Some app"
    and source: "read_file w (fs_key w (posix_join [internal_initializedPath app, ''./icon.avif''])) = Some source"
    and valid: "image_transform w source 88 88 ''webp'' = Some rendition"
    and reachable: "fs_key w (cachePath w app fileName) \<notin> denied w"
    and mkdir: "path_exists w (fs_key w (cachePath w app fileName))
                \<or> fst (mkdir_recursive w (cacheDirectory w app)) = Inr ()"
  shows "\<exists>reply w1 w2.
           gridIconRoute fileName w applicationId = (Inr reply, w1)
           \<and> gridIconRoute fileName w1 applicationId = (Inr reply, w2)
           \<and> reply = Stream ''image/webp'' (posix_resolve (cwd w) [cachePath w app fileName])
                        (files w1 (fs_key w (cachePath w app fileName)))
           \<and> (\<not> path_exists w (fs_key w (cachePath w app fileName))
                 \<longrightarrow> files w1 (fs_key w (cachePath w app fileName)) = Some rendition)
           \<and> resize_count w2 \<le> Suc (resize_count w)
           \<and> resize_count w2 = resize_count w1
           \<and> trace w2 = trace w1 @
                 [EvAccess (fs_key w (cachePath w app fileName)),
                  EvReadStream (fs_key w (cachePath w app fileName))]
           \<and> files w2 = files w1"
proof (cases "path_exists w (fs_key w (cachePath w app fileName))")
  case True
  with loaded reachable posix_resolve_idempotent [OF cwd] show ?thesis
    by (simp add: gridIconRoute_def fs_defs resize_count_def find_application_def)
next
  case False
  with mkdir have m: "fst (mkdir_recursive w (cacheDirectory w app)) = Inr ()" by simp
  from source have s: "fs_key w (posix_join [internal_initializedPath app, ''./icon.avif'']) \<in> dom (files w)"
    "fs_key w (posix_join [internal_initializedPath app, ''./icon.avif'']) \<notin> denied w"
    by (auto simp: read_file_def split: if_splits)
  from False loaded reachable m s source valid posix_resolve_idempotent [OF cwd] show ?thesis
    by (auto simp: gridIconRoute_def fs_defs resize_count_def find_application_def split: if_splits)
qed

lemma quickShortcutIconRoute_twice:
  assumes cwd: "isAbsolute (cwd w)"
    and loaded: "find_application w applicationId = Some app"
    and source: "read_file w (fs_key w (posix_join [internal_initializedPath app, ''./assets/icon.png''])) = Some source"
    and valid: "image_transform w source 88 88 ''webp'' = Some rendition"
    and reachable: "fs_key w (cachePath w app ''quickShortcut.webp'') \<notin> denied w"
    and mkdir: "path_exists w (fs_key w (cachePath w app ''quickShortcut.webp''))
                \<or> fst (mkdir_recursive w (cacheDirectory w app)) = Inr ()"
  shows "\<exists>reply w1 w2.
           quickShortcutIconRoute w applicationId = (Inr reply, w1)
           \<and> quickShortcutIconRoute w1 applicationId = (Inr reply, w2)
           \<and> reply = Stream ''image/webp'' (posix_resolve (cwd w) [cachePath w app ''quickShortcut.webp''])
                        (files w1 (fs_key w (cachePath w app ''quickShortcut.webp'')))
           \<and> (\<not> path_exists w (fs_key w (cachePath w app ''quickShortcut.webp''))
                 \<longrightarrow> files w1 (fs_key w (cachePath w app ''quickShortcut.webp'')) = Some rendition)
           \<and> resize_count w2 \<le> Suc (resize_count w)
           \<and> resize_count w2 = resize_count w1
           \<and> trace w2 = trace w1 @
                 [EvAccess (fs_key w (cachePath w app ''quickShortcut.webp'')),
                  EvReadStream (fs_key w (cachePath w app ''quickShortcut.webp''))]
           \<and> files w2 = files w1"
proof (cases "path_exists w (fs_key w (cachePath w app ''quickShortcut.webp''))")
  case True
  with loaded reachable posix_resolve_idempotent [OF cwd] show ?thesis
    by (simp add: quickShortcutIconRoute_def fs_defs resize_count_def find_application_def)
next
  case False
  with mkdir have m: "fst (mkdir_recursive w (cacheDirectory w app)) = Inr ()" by simp
  from False loaded reachable m source valid posix_resolve_idempotent [OF cwd] show ?thesis
    by (auto simp: quickShortcutIconRoute_def fs_defs resize_count_def find_application_def
          split: if_splits)
qed


text \<open>
  C1. For a loaded plugin whose source icon can be read and resized (a valid source
  icon), in a process with an absolute working directory, where the cache file is
  present or its directory can be created and the cache path is reachable: two
  successive fetches of the same rendition answer with the same reply, the bytes stored
  at the cache path (the rendition of the source icon when the cache file was not there
  before); the resize operation is invoked at most once across the two calls; and the
  second call performs exactly an access check and a read of the cache file, which is
  not the source icon, with no resize and no change to any file.
\<close>

theorem fetch_twice:
  assumes cwd: "isAbsolute (cwd w)"
    and loaded: "find_application w applicationId = Some app"
    and source: "read_file w (fs_key w (sourceIconPath kind app)) = Some source"
    and valid: "image_transform w source 88 88 ''webp'' = Some rendition"
    and reachable: "fs_key w (cachePath w app (cacheFileName kind)) \<notin> denied w"
    and mkdir: "path_exists w (fs_key w (cachePath w app (cacheFileName kind)))
                \<or> fst (mkdir_recursive w (cacheDirectory w app)) = Inr ()"
  shows "\<exists>reply w1 w2.
           fetch kind w applicationId = (Inr reply, w1)
           \<and> fetch kind w1 applicationId = (Inr reply, w2)
           \<and> reply = Stream ''image/webp'' (posix_resolve (cwd w) [cachePath w app (cacheFileName kind)])
                        (files w1 (fs_key w (cachePath w app (cacheFileName kind))))
           \<and> (\<not> path_exists w (fs_key w (cachePath w app (cacheFileName kind)))
                 \<longrightarrow> files w1 (fs_key w (cachePath w app (cacheFileName kind))) = Some rendition)
           \<and> resize_count w2 \<le> Suc (resize_count w)
           \<and> resize_count w2 = resize_count w1
           \<and> trace w2 = trace w1 @
                 [EvAccess (fs_key w (cachePath w app (cacheFileName kind))),
                  EvReadStream (fs_key w (cachePath w app (cacheFileName kind)))]
           \<and> fs_key w (cachePath w app (cacheFileName kind)) \<noteq> fs_key w (sourceIconPath kind app)
           \<and> files w2 = files w1"
proof -
  note distinct_paths = cache_is_not_source [OF cwd, of app kind]
  show ?thesis
  proof (cases kind)
    case LargeGridIcon
    with gridIconRoute_twice [of w applicationId app source rendition "''largeGridIcon.webp''"]
      assms distinct_paths
    show ?thesis by (simp add: largeGridRoute_def)
  next
    case SmallGridIcon
    with gridIconRoute_twice [of w applicationId app source rendition "''smallGridIcon.webp''"]
      assms distinct_paths
    show ?thesis by (simp add: smallGridRoute_def)
  next
    case ListIcon
    with gridIconRoute_twice [of w applicationId app source rendition "''listIcon.webp''"]
      assms distinct_paths
    show ?thesis by (simp add: listRoute_def)
  next
    case QuickShortcutIcon
    with quickShortcutIconRoute_twice [of w applicationId app source rendition] assms distinct_paths
    show ?thesis by simp
  qed
qed


theorem fetch_twice_witness:
  "isAbsolute (cwd cached_instance)
   \<and> find_application cached_instance ''uk-ewsgit-dash'' = Some dash_application
   \<and> read_file cached_instance (fs_key cached_instance (sourceIconPath SmallGridIcon dash_application))
        = Some ''avif image''
   \<and> image_transform cached_instance ''avif image'' 88 88 ''webp'' = Some ''webpavif image''
   \<and> fs_key cached_instance (cachePath cached_instance dash_application (cacheFileName SmallGridIcon))
        \<notin> denied cached_instance
   \<and> fst (mkdir_recursive cached_instance (cacheDirectory cached_instance dash_application)) = Inr ()
   \<and> (\<exists>reply w1 w2.
           reply = Stream ''image/webp''
                     ''/srv/fs/Cache/panel/applications/uk-ewsgit-dash/smallGridIcon.webp''
                     (Some ''webpavif image'')
           \<and> fetch SmallGridIcon cached_instance ''uk-ewsgit-dash'' = (Inr reply, w1)
           \<and> fetch SmallGridIcon w1 ''uk-ewsgit-dash'' = (Inr reply, w2)
           \<and> resize_count w2 \<le> Suc (resize_count cached_instance)
           \<and> trace w2 = trace w1 @
                [EvAccess ''/srv/fs/Cache/panel/applications/uk-ewsgit-dash/smallGridIcon.webp'',
                 EvReadStream ''/srv/fs/Cache/panel/applications/uk-ewsgit-dash/smallGridIcon.webp'']
           \<and> files w2 = files w1)"
proof -
  have source: "read_file cached_instance
                  (fs_key cached_instance (sourceIconPath SmallGridIcon dash_application))
                = Some ''avif image''"
    by (simp add: fs_defs instance_defs icon_paths)
  have valid: "image_transform cached_instance ''avif image'' 88 88 ''webp'' = Some ''webpavif image''"
    by (simp add: instance_defs)
  have reachable: "fs_key cached_instance
                     (cachePath cached_instance dash_application (cacheFileName SmallGridIcon))
                   \<notin> denied cached_instance"
    by (simp add: instance_defs)
  have concrete:
    "fs_key cached_instance (cachePath cached_instance dash_application (cacheFileName SmallGridIcon))
       = ''/srv/fs/Cache/panel/applications/uk-ewsgit-dash/smallGridIcon.webp''"
    "posix_resolve (cwd cached_instance)
         [cachePath cached_instance dash_application (cacheFileName SmallGridIcon)]
       = ''/srv/fs/Cache/panel/applications/uk-ewsgit-dash/smallGridIcon.webp''"
    by (simp_all add: fs_defs instance_defs small_grid_paths)
  have absent: "\<not> path_exists cached_instance
                   ''/srv/fs/Cache/panel/applications/uk-ewsgit-dash/smallGridIcon.webp''"
    by (simp add: path_exists_def instance_defs)
  from fetch_twice [OF instance_cwd(2) icon_instance_find(2) source valid reachable
      disjI2 [OF icon_instance_mkdir(2)]]
  obtain reply w1 w2 where
      "fetch SmallGridIcon cached_instance ''uk-ewsgit-dash'' = (Inr reply, w1)"
      "fetch SmallGridIcon w1 ''uk-ewsgit-dash'' = (Inr reply, w2)"
      "reply = Stream ''image/webp''
                     ''/srv/fs/Cache/panel/applications/uk-ewsgit-dash/smallGridIcon.webp''
                     (Some ''webpavif image'')"
      "resize_count w2 \<le> Suc (resize_count cached_instance)"
      "trace w2 = trace w1 @
                [EvAccess ''/srv/fs/Cache/panel/applications/uk-ewsgit-dash/smallGridIcon.webp'',
                 EvReadStream ''/srv/fs/Cache/panel/applications/uk-ewsgit-dash/smallGridIcon.webp'']"
      "files w2 = files w1"
    unfolding concrete using absent by auto
  then show ?thesis
    using source valid reachable icon_instance_mkdir(2) icon_instance_find(2) instance_cwd(2)
    by blast
qed

lemma gridIconRoute_fallback:
  assumes cwd: "isAbsolute (cwd w)"
    and loaded: "find_application w applicationId = Some app"
    and absent: "\<not> path_exists w (fs_key w (cachePath w app fileName))"
    and mkdir: "fst (mkdir_recursive w (cacheDirectory w app)) = Inr ()"
    and no_source: "\<not> path_exists w (fs_key w (posix_join [internal_initializedPath app, ''./icon.avif'']))"
                   "fs_key w (posix_join [internal_initializedPath app, ''./icon.avif''])
                      \<notin> set (directory_chain (fs_key w (cacheDirectory w app)))"
  shows "gridIconRoute fileName w applicationId
           = (Inr (Stream ''image/webp'' (posix_resolve (cwd w) [invalidIconPath w])
                     (read_file w (fs_key w (invalidIconPath w)))),
              w\<lparr>trace := trace w @
                    [EvAccess (fs_key w (cachePath w app fileName)),
                     EvMkdir (fs_key w (cacheDirectory w app)),
                     EvAccess (fs_key w (posix_join [internal_initializedPath app, ''./icon.avif''])),
                     EvReadStream (fs_key w (invalidIconPath w))],
                 dirs := dirs w \<union> set (directory_chain (fs_key w (cacheDirectory w app)))\<rparr>)"
  using loaded absent mkdir no_source posix_resolve_idempotent [OF cwd]
  by (auto simp: gridIconRoute_def fs_defs split: if_splits)


text \<open>
  C3. For a loaded plugin and the large-grid, small-grid or list rendition, in a process
  with an absolute working directory, when the cache file is not present, the cache
  directory can be created and the source icon does not exist (neither before the
  request nor as one of the directories the request creates): the fetch streams
  \<^verbatim>\<open>{GlobalCacheDirectory}/panel/invalidIcon.webp\<close> as \<^verbatim>\<open>image/webp\<close>; its only effects
  are the access checks, the created directories and the read; no file is created
  anywhere, and the cache file is still absent afterwards. When a valid icon is then
  installed at the source path, the next fetch generates and streams its rendition.
\<close>

theorem fallback_not_cached:
  assumes cwd: "isAbsolute (cwd w)"
    and loaded: "find_application w applicationId = Some app"
    and kind: "kind \<noteq> QuickShortcutIcon"
    and absent: "\<not> path_exists w (fs_key w (cachePath w app (cacheFileName kind)))"
    and mkdir: "fst (mkdir_recursive w (cacheDirectory w app)) = Inr ()"
    and no_source: "\<not> path_exists w (fs_key w (sourceIconPath kind app))"
                   "fs_key w (sourceIconPath kind app)
                      \<notin> set (directory_chain (fs_key w (cacheDirectory w app)))"
  shows "fetch kind w applicationId
           = (Inr (Stream ''image/webp'' (posix_resolve (cwd w) [invalidIconPath w])
                     (read_file w (fs_key w (invalidIconPath w)))),
              w\<lparr>trace := trace w @
                    [EvAccess (fs_key w (cachePath w app (cacheFileName kind))),
                     EvMkdir (fs_key w (cacheDirectory w app)),
                     EvAccess (fs_key w (sourceIconPath kind app)),
                     EvReadStream (fs_key w (invalidIconPath w))],
                 dirs := dirs w \<union> set (directory_chain (fs_key w (cacheDirectory w app)))\<rparr>)
         \<and> files (snd (fetch kind w applicationId)) = files w
         \<and> \<not> path_exists (snd (fetch kind w applicationId))
               (fs_key w (cachePath w app (cacheFileName kind)))
         \<and> (image_transform w source 88 88 ''webp'' = Some rendition
              \<and> fs_key w (sourceIconPath kind app) \<notin> denied w
              \<and> fs_key w (cachePath w app (cacheFileName kind)) \<notin> denied w
             \<longrightarrow> fst (fetch kind
                        ((snd (fetch kind w applicationId))
                           \<lparr>files := (files w)(fs_key w (sourceIconPath kind app) \<mapsto> source)\<rparr>)
                        applicationId)
                   = Inr (Stream ''image/webp''
                            (posix_resolve (cwd w) [cachePath w app (cacheFileName kind)])
                            (Some rendition)))"
proof -
  obtain fileName where route: "fetch kind = gridIconRoute fileName"
    and name: "cacheFileName kind = fileName"
    and src: "sourceIconPath kind app = posix_join [internal_initializedPath app, ''./icon.avif'']"
    using kind by (cases kind) (auto simp: largeGridRoute_def smallGridRoute_def listRoute_def)
  define c where "c = fs_key w (cachePath w app fileName)"
  define d where "d = fs_key w (cacheDirectory w app)"
  define s where "s = fs_key w (posix_join [internal_initializedPath app, ''./icon.avif''])"
  define w' where "w' = w\<lparr>trace := trace w @
                    [EvAccess c, EvMkdir d, EvAccess s, EvReadStream (fs_key w (invalidIconPath w))],
                 dirs := dirs w \<union> set (directory_chain d)\<rparr>"
  have first: "gridIconRoute fileName w applicationId
           = (Inr (Stream ''image/webp'' (posix_resolve (cwd w) [invalidIconPath w])
                     (read_file w (fs_key w (invalidIconPath w)))), w')"
    using gridIconRoute_fallback [OF cwd loaded, of fileName] assms
    unfolding name [symmetric] src c_def d_def s_def w'_def by simp
  have c_not_s: "c \<noteq> s"
    using cache_is_not_source [OF cwd, of app kind] by (simp add: c_def s_def name src)
  have c_not_dir: "c \<notin> set (directory_chain d)"
    using cache_file_not_a_directory [OF cwd plain_file_names(1), of app kind]
    by (simp add: c_def d_def name)
  have c_absent: "c \<notin> dom (files w)" "c \<notin> dirs w"
    using absent by (simp_all add: path_exists_def c_def name)
  have still_absent: "\<not> path_exists w' c"
    using c_absent c_not_dir by (simp add: path_exists_def w'_def)
  have later: "fst (gridIconRoute fileName (w'\<lparr>files := (files w)(s \<mapsto> source)\<rparr>) applicationId)
                 = Inr (Stream ''image/webp'' (posix_resolve (cwd w) [cachePath w app fileName])
                          (Some rendition))"
    if valid: "image_transform w source 88 88 ''webp'' = Some rendition"
      and s_ok: "s \<notin> denied w" and c_ok: "c \<notin> denied w"
  proof -
    let ?w = "w'\<lparr>files := (files w)(s \<mapsto> source)\<rparr>"
    have same: "cwd ?w = cwd w" "fs_key ?w = fs_key w" "cachePath ?w = cachePath w"
      "cacheDirectory ?w = cacheDirectory w" "denied ?w = denied w"
      "image_transform ?w = image_transform w" "find_application ?w = find_application w"
      "files ?w = (files w)(s \<mapsto> source)" "dirs ?w = dirs w \<union> set (directory_chain d)"
      by (auto simp: w'_def fs_key_def cachePath_def cacheDirectory_def GlobalCacheDirectory_def
            find_application_def fun_eq_iff)
    have mk: "d \<notin> denied w" "d \<notin> dom (files w)" "\<forall>x \<in> set (directory_chain d). x \<notin> dom (files w)"
      using mkdir by (simp_all add: mkdir_recursive_ok d_def)
    have s_not_dir: "s \<notin> set (directory_chain d)"
      using no_source(2) by (simp add: s_def d_def src)
    have d_not_s: "d \<noteq> s"
      using s_not_dir cache_directory_in_chain [OF cwd, of app] by (auto simp: d_def)
    have h_absent: "\<not> path_exists ?w (fs_key ?w (cachePath ?w app fileName))"
      using c_absent c_not_dir c_not_s
      by (simp add: same path_exists_def c_def [symmetric])
    have h_mkdir: "fst (mkdir_recursive ?w (cacheDirectory ?w app)) = Inr ()"
      using mk s_not_dir d_not_s
      by (auto simp: mkdir_recursive_ok same d_def [symmetric])
    have h_source: "read_file ?w (fs_key ?w (posix_join [internal_initializedPath app, ''./icon.avif'']))
                      = Some source"
      using s_ok by (simp add: same read_file_def s_def [symmetric])
    have h_valid: "image_transform ?w source 88 88 ''webp'' = Some rendition"
      using valid by (simp add: same)
    have h_reach: "fs_key ?w (cachePath ?w app fileName) \<notin> denied ?w"
      using c_ok by (simp add: same c_def)
    from gridIconRoute_generates(1) [of ?w applicationId app fileName source rendition]
      cwd loaded h_absent h_mkdir h_source h_valid h_reach
    show ?thesis by (simp add: same)
  qed
  show ?thesis
    unfolding route name src
    using first still_absent later
    by (simp add: c_def [symmetric] d_def [symmetric] s_def [symmetric] w'_def [symmetric])
       (simp add: w'_def)
qed


theorem fallback_not_cached_witness:
  "isAbsolute (cwd icon_instance)
   \<and> find_application icon_instance ''uk-ewsgit-dash'' = Some dash_application
   \<and> ListIcon \<noteq> QuickShortcutIcon
   \<and> \<not> path_exists icon_instance
         (fs_key icon_instance (cachePath icon_instance dash_application (cacheFileName ListIcon)))
   \<and> fst (mkdir_recursive icon_instance (cacheDirectory icon_instance dash_application)) = Inr ()
   \<and> \<not> path_exists icon_instance (fs_key icon_instance (sourceIconPath ListIcon dash_application))
   \<and> fs_key icon_instance (sourceIconPath ListIcon dash_application)
        \<notin> set (directory_chain (fs_key icon_instance (cacheDirectory icon_instance dash_application)))
   \<and> image_transform icon_instance ''avif image'' 88 88 ''webp'' = Some ''webpavif image''
   \<and> fst (fetch ListIcon icon_instance ''uk-ewsgit-dash'')
        = Inr (Stream ''image/webp'' ''/srv/fs/Cache/panel/invalidIcon.webp'' (Some ''fallback image''))
   \<and> files (snd (fetch ListIcon icon_instance ''uk-ewsgit-dash'')) = files icon_instance
   \<and> fst (fetch ListIcon
             ((snd (fetch ListIcon icon_instance ''uk-ewsgit-dash''))
                \<lparr>files := (files icon_instance)
                   (''/srv/src/applications/uk-ewsgit-dash/icon.avif'' \<mapsto> ''avif image'')\<rparr>)
             ''uk-ewsgit-dash'')
        = Inr (Stream ''image/webp'' ''/srv/fs/Cache/panel/applications/uk-ewsgit-dash/listIcon.webp''
                 (Some ''webpavif image''))"
proof -
  have absent: "\<not> path_exists icon_instance
         (fs_key icon_instance (cachePath icon_instance dash_application (cacheFileName ListIcon)))"
    by (simp add: fs_defs instance_defs icon_paths small_grid_paths)
  have no_source: "\<not> path_exists icon_instance (fs_key icon_instance (sourceIconPath ListIcon dash_application))"
    "fs_key icon_instance (sourceIconPath ListIcon dash_application)
        \<notin> set (directory_chain (fs_key icon_instance (cacheDirectory icon_instance dash_application)))"
    by (simp_all add: fs_defs instance_defs icon_paths)
  have valid: "image_transform icon_instance ''avif image'' 88 88 ''webp'' = Some ''webpavif image''"
    by (simp add: instance_defs)
  have concrete:
    "posix_resolve (cwd icon_instance) [invalidIconPath icon_instance]
       = ''/srv/fs/Cache/panel/invalidIcon.webp''"
    "read_file icon_instance (fs_key icon_instance (invalidIconPath icon_instance))
       = Some ''fallback image''"
    "fs_key icon_instance (sourceIconPath ListIcon dash_application)
       = ''/srv/src/applications/uk-ewsgit-dash/icon.avif''"
    "posix_resolve (cwd icon_instance) [cachePath icon_instance dash_application (cacheFileName ListIcon)]
       = ''/srv/fs/Cache/panel/applications/uk-ewsgit-dash/listIcon.webp''"
    "fs_key icon_instance (sourceIconPath ListIcon dash_application) \<notin> denied icon_instance"
    "fs_key icon_instance (cachePath icon_instance dash_application (cacheFileName ListIcon))
       \<notin> denied icon_instance"
    by (simp_all add: fs_defs instance_defs icon_paths small_grid_paths)
  have "ListIcon \<noteq> QuickShortcutIcon" by simp
  note fallback = fallback_not_cached [OF instance_cwd(1) icon_instance_find(1) this absent
      icon_instance_mkdir(1) no_source, of "''avif image''" "''webpavif image''"]
  note reply = fallback [THEN conjunct1]
    and unchanged = fallback [THEN conjunct2, THEN conjunct1]
    and later = fallback [THEN conjunct2, THEN conjunct2, THEN conjunct2, rule_format]
  have "fst (fetch ListIcon icon_instance ''uk-ewsgit-dash'')
        = Inr (Stream ''image/webp'' ''/srv/fs/Cache/panel/invalidIcon.webp'' (Some ''fallback image''))"
    unfolding reply concrete by simp
  moreover have "fst (fetch ListIcon
             ((snd (fetch ListIcon icon_instance ''uk-ewsgit-dash''))
                \<lparr>files := (files icon_instance)
                   (''/srv/src/applications/uk-ewsgit-dash/icon.avif'' \<mapsto> ''avif image'')\<rparr>)
             ''uk-ewsgit-dash'')
        = Inr (Stream ''image/webp'' ''/srv/fs/Cache/panel/applications/uk-ewsgit-dash/listIcon.webp''
                 (Some ''webpavif image''))"
    using later [OF conjI [OF valid conjI [OF concrete(5) concrete(6)]]]
    unfolding concrete .
  ultimately show ?thesis
    using absent no_source valid instance_cwd(1) icon_instance_find(1) icon_instance_mkdir(1)
      unchanged
    by blast
qed

text \<open>
  C4 at a failing input. \<^verbatim>\<open>uk-ewsgit-dash\<close> is loaded and ships no icon. The large-grid
  route checks for the source icon and streams the global fallback; the quick-shortcut
  route has no such check, calls the resize operation on the missing
  \<^verbatim>\<open>assets/icon.png\<close>, and the request ends with the error that throws.
\<close>

theorem quickShortcut_icon_no_fallback:
  "fst (fetch LargeGridIcon icon_instance ''uk-ewsgit-dash'')
     = Inr (Stream ''image/webp'' ''/srv/fs/Cache/panel/invalidIcon.webp'' (Some ''fallback image''))
   \<and> fst (fetch QuickShortcutIcon icon_instance ''uk-ewsgit-dash'')
     = Inl (ErrorObject ''RenditionError: source unreadable'')"
  by (simp add: gridIconRoute_def quickShortcutIconRoute_def largeGridRoute_def fs_defs
        find_application_def instance_defs icon_paths)




end
